theory Spec2Isabelle
  imports Complex_Main "HOL-Library.Log_Nat" "HOL-Library.Word"
begin

chapter \<open>The live-metrics generator of krispy-mission-control\<close>

text \<open>
  The repository holds two revisions of one Node.js script, \<^verbatim>\<open>generate-live-data.js\<close> (data
  version 1) and its successor (data version 2), which scans a handful of project
  directories, scores them and writes one JSON snapshot.  This theory embeds the
  functions of the successor.  Of the older revision it covers the two functions that the
  successor took over: the checklist parser, which is the same text in both, and the
  scanner, which differs in its skip list and its default cap and is given in both variants.
  Everything the script reads from outside (directory listings, file times, file
  texts, command output, the clock) is an explicit argument.
\<close>

section \<open>JavaScript numbers\<close>

text \<open>
  The generator is a Node.js script, so every number in it is an IEEE-754 binary64 value.
  A finite double is a rational, and the script only ever produces finite values, so a
  number is modelled as a \<^typ>\<open>rat\<close> and every arithmetic operation rounds its exact result
  to the nearest double, ties to even (\<open>fl64\<close>).  The exponent range is not bounded in
  the model: the magnitudes that occur (ratios of counts, hours, scores) stay far away from
  overflow and from the subnormal range.  Quantities that are integers by construction
  (array lengths, commit counts and the small products taken with them) are kept as
  \<^typ>\<open>int\<close>; they are exact in double arithmetic below \<open>2 ^ 53\<close>, see \<open>fl64_of_int\<close>.
\<close>

definition rne :: "rat \<Rightarrow> int" where
  \<comment> \<open>round to the nearest integer, ties to the even neighbour\<close>
  "rne x = (let n = \<lfloor>x\<rfloor>; r = x - of_int n in
     if r < 1/2 then n else if 1/2 < r then n + 1 else if even n then n else n + 1)"

definition ilog2 :: "rat \<Rightarrow> int" where
  \<comment> \<open>the binary exponent \<open>\<lfloor>log\<^sub>2 x\<rfloor>\<close> of a positive rational\<close>
  "ilog2 x = (case quotient_of x of (a, b) \<Rightarrow>
     (let d = bitlen a - bitlen b in if 2 powi d \<le> x then d else d - 1))"

definition fl64 :: "rat \<Rightarrow> rat" where
  \<comment> \<open>rounding to 53 significant bits\<close>
  "fl64 x = (if x = 0 then 0 else
     (let q = 2 powi (ilog2 \<bar>x\<bar> - 52) in sgn x * (of_int (rne (\<bar>x\<bar> / q)) * q)))"

definition js_add :: "rat \<Rightarrow> rat \<Rightarrow> rat" where
  "js_add x y = fl64 (x + y)"

definition js_sub :: "rat \<Rightarrow> rat \<Rightarrow> rat" where
  "js_sub x y = fl64 (x - y)"

definition js_mul :: "rat \<Rightarrow> rat \<Rightarrow> rat" where
  "js_mul x y = fl64 (x * y)"

definition js_div :: "rat \<Rightarrow> rat \<Rightarrow> rat" where
  \<comment> \<open>only ever applied to a non-zero divisor: the script guards the one variable divisor\<close>
  "js_div x y = fl64 (x / y)"

definition Math_round :: "rat \<Rightarrow> int" where
  \<comment> \<open>\<^verbatim>\<open>Math.round\<close>: the nearest integer, a tie going towards \<open>+\<infinity>\<close>\<close>
  "Math_round x = \<lfloor>x + 1/2\<rfloor>"

section \<open>JavaScript strings\<close>

text \<open>
  A JavaScript string is a sequence of UTF-16 code units.  File contents, file names and
  command output are arbitrary such sequences; the literals of the script are ASCII and are
  written with \<open>asc\<close>.
\<close>

type_synonym jsstring = "16 word list"

definition asc :: "string \<Rightarrow> jsstring" where
  "asc s = map of_char s"

definition dquote :: jsstring where
  \<comment> \<open>the one-character string holding a double quote\<close>
  "dquote = [0x22]"

definition isLineTerminator :: "16 word \<Rightarrow> bool" where
  \<comment> \<open>LF, CR, LINE SEPARATOR, PARAGRAPH SEPARATOR: where \<^verbatim>\<open>^\<close> matches under the \<^verbatim>\<open>m\<close> flag\<close>
  "isLineTerminator c = (c = 0x0A \<or> c = 0x0D \<or> c = 0x2028 \<or> c = 0x2029)"

definition isWhiteSpace :: "16 word \<Rightarrow> bool" where
  \<comment> \<open>the code units \<^verbatim>\<open>String.prototype.trim\<close> strips: white space and line terminators\<close>
  "isWhiteSpace c = (c = 0x09 \<or> c = 0x0B \<or> c = 0x0C \<or> c = 0x20 \<or> c = 0xA0 \<or> c = 0x1680
     \<or> (0x2000 \<le> c \<and> c \<le> 0x200A) \<or> c = 0x202F \<or> c = 0x205F \<or> c = 0x3000 \<or> c = 0xFEFF
     \<or> isLineTerminator c)"

definition trim :: "jsstring \<Rightarrow> jsstring" where
  "trim s = rev (dropWhile isWhiteSpace (rev (dropWhile isWhiteSpace s)))"

definition isWordChar :: "16 word \<Rightarrow> bool" where
  \<comment> \<open>the class \<^verbatim>\<open>\w\<close>\<close>
  "isWordChar c = ((0x61 \<le> c \<and> c \<le> 0x7A) \<or> (0x41 \<le> c \<and> c \<le> 0x5A)
     \<or> (0x30 \<le> c \<and> c \<le> 0x39) \<or> c = 0x5F)"

definition toUpperCase1 :: "16 word \<Rightarrow> 16 word" where
  \<comment> \<open>\<^verbatim>\<open>toUpperCase\<close> of a one-character string holding a word character\<close>
  "toUpperCase1 c = (if 0x61 \<le> c \<and> c \<le> 0x7A then c - 0x20 else c)"

definition foldCase :: "16 word \<Rightarrow> 16 word" where
  \<comment> \<open>the canonical form under the \<^verbatim>\<open>i\<close> flag, for matching against ASCII letters: a code unit
      above 127 never folds onto an ASCII one\<close>
  "foldCase c = (if 0x61 \<le> c \<and> c \<le> 0x7A then c - 0x20 else c)"

fun containsCI :: "jsstring \<Rightarrow> jsstring \<Rightarrow> bool" where
  \<comment> \<open>\<^verbatim>\<open>/pat/i.test(s)\<close> for a literal pattern\<close>
  "containsCI pat [] = (pat = [])"
| "containsCI pat (c # cs) =
     (if map foldCase (take (length pat) (c # cs)) = map foldCase pat then True
      else containsCI pat cs)"

definition endsWithCI :: "jsstring \<Rightarrow> jsstring \<Rightarrow> bool" where
  \<comment> \<open>\<^verbatim>\<open>/pat$/i.test(s)\<close> for a literal pattern (no \<^verbatim>\<open>m\<close> flag: \<^verbatim>\<open>$\<close> is the end of input)\<close>
  "endsWithCI pat s =
     (length pat \<le> length s \<and> map foldCase (drop (length s - length pat) s) = map foldCase pat)"

fun joinWith :: "jsstring \<Rightarrow> jsstring list \<Rightarrow> jsstring" where
  \<comment> \<open>\<^verbatim>\<open>Array.prototype.join\<close>\<close>
  "joinWith sep [] = []"
| "joinWith sep [x] = x"
| "joinWith sep (x # y # ys) = x @ sep @ joinWith sep (y # ys)"

fun splitLines :: "jsstring \<Rightarrow> jsstring \<Rightarrow> jsstring list" where
  \<comment> \<open>\<^verbatim>\<open>s.split(/\r?\n/)\<close>; the first argument collects the current piece, reversed\<close>
  "splitLines acc [] = [rev acc]"
| "splitLines acc (c # cs) =
     (if c = 0x0A then rev acc # splitLines [] cs
      else (case cs of
              d # ds \<Rightarrow> if c = 0x0D \<and> d = 0x0A then rev acc # splitLines [] ds
                        else splitLines (c # acc) cs
            | [] \<Rightarrow> splitLines (c # acc) cs))"

definition nonEmptyLines :: "jsstring \<Rightarrow> jsstring list" where
  \<comment> \<open>\<^verbatim>\<open>s.split(/\r?\n/).filter(Boolean)\<close>: the empty string is the only falsy string\<close>
  "nonEmptyLines s = filter (\<lambda>l. l \<noteq> []) (splitLines [] s)"

fun digitsOf :: "nat \<Rightarrow> jsstring" where
  \<comment> \<open>the decimal digits of a natural number\<close>
  "digitsOf n = (if n < 10 then [0x30 + of_nat n] else digitsOf (n div 10) @ [0x30 + of_nat (n mod 10)])"

definition String :: "int \<Rightarrow> jsstring" where
  \<comment> \<open>\<^verbatim>\<open>String(n)\<close> and \<^verbatim>\<open>${n}\<close> for an integer below \<open>10\<^sup>2\<^sup>1\<close> in magnitude\<close>
  "String n = (if n < 0 then 0x2D # digitsOf (nat (- n)) else digitsOf (nat n))"

fun capitalizeWords :: "bool \<Rightarrow> jsstring \<Rightarrow> jsstring" where
  \<comment> \<open>\<^verbatim>\<open>s.replace(/\b\w/g, c => c.toUpperCase())\<close>; the flag says whether the code unit before
      the current position is a word character\<close>
  "capitalizeWords prevWord [] = []"
| "capitalizeWords prevWord (c # cs) =
     (if isWordChar c \<and> \<not> prevWord then toUpperCase1 c else c) # capitalizeWords (isWordChar c) cs"

definition displayName :: "jsstring \<Rightarrow> jsstring" where
  \<comment> \<open>\<^verbatim>\<open>name.replace(/[_-]/g, ' ').replace(/\b\w/g, c => c.toUpperCase())\<close>\<close>
  "displayName name =
     capitalizeWords False (map (\<lambda>c. if c = 0x5F \<or> c = 0x2D then 0x20 else c) name)"

section \<open>Checklist parser\<close>

record todoCounts =
  t_total :: int
  t_done :: int
  t_open :: int

fun anyItemAt :: "jsstring \<Rightarrow> bool" where
  \<comment> \<open>\<^verbatim>\<open>- \[[ xX]\]\<close> matches at the head of the text\<close>
  "anyItemAt (a # b # c # d # e # rest) =
     (a = 0x2D \<and> b = 0x20 \<and> c = 0x5B \<and> (d = 0x20 \<or> d = 0x78 \<or> d = 0x58) \<and> e = 0x5D)"
| "anyItemAt s = False"

fun doneItemAt :: "jsstring \<Rightarrow> bool" where
  \<comment> \<open>\<^verbatim>\<open>- \[[xX]\]\<close> matches at the head of the text\<close>
  "doneItemAt (a # b # c # d # e # rest) =
     (a = 0x2D \<and> b = 0x20 \<and> c = 0x5B \<and> (d = 0x78 \<or> d = 0x58) \<and> e = 0x5D)"
| "doneItemAt s = False"

fun lineStartMatches :: "(jsstring \<Rightarrow> bool) \<Rightarrow> bool \<Rightarrow> jsstring \<Rightarrow> nat" where
  \<comment> \<open>the number of matches \<^verbatim>\<open>s.match(/^P/gm)\<close> collects, for a pattern \<^verbatim>\<open>P\<close> that consumes five
      code units: the search moves on one position at a time, \<^verbatim>\<open>^\<close> holds at the start of the
      input and after a line terminator, and after a match the search resumes behind it\<close>
  "lineStartMatches pat atLineStart [] = 0"
| "lineStartMatches pat atLineStart (c # cs) =
     (if atLineStart \<and> pat (c # cs) then Suc (lineStartMatches pat False (drop 4 cs))
      else lineStartMatches pat (isLineTerminator c) cs)"

definition countTodoItems :: "jsstring \<Rightarrow> todoCounts" where
  "countTodoItems md =
     (let matches = int (lineStartMatches anyItemAt True md);
          done = int (lineStartMatches doneItemAt True md)
      in \<lparr>t_total = matches, t_done = done, t_open = max 0 (matches - done)\<rparr>)"

definition countTodosInProject :: "(jsstring \<times> jsstring) list option \<Rightarrow> todoCounts" where
  \<comment> \<open>the argument is what the directory shows: \<open>None\<close> when \<^verbatim>\<open>readdirSync\<close> throws, otherwise
      each name with the text \<^verbatim>\<open>readText\<close> returns for it (empty when the file cannot be read)\<close>
  "countTodosInProject listing =
     (case listing of
        None \<Rightarrow> \<lparr>t_total = 0, t_done = 0, t_open = 0\<rparr>
      | Some files \<Rightarrow>
          countTodoItems (joinWith [0x0A] (map snd (filter
            (\<lambda>(n, text). (containsCI (asc ''todo'') n \<or> containsCI (asc ''tasks'') n
                            \<or> containsCI (asc ''checklist'') n) \<and> endsWithCI (asc ''.md'') n)
            files))))"

text \<open>
  For the two patterns of the parser the resumption behind a match skips no candidate: the
  five matched code units hold no line terminator.  The position-by-position count below
  is the reference the proofs use.
\<close>

fun lineStartHits :: "(jsstring \<Rightarrow> bool) \<Rightarrow> bool \<Rightarrow> jsstring \<Rightarrow> nat" where
  "lineStartHits pat atLineStart [] = 0"
| "lineStartHits pat atLineStart (c # cs) =
     (if atLineStart \<and> pat (c # cs) then 1 else 0) + lineStartHits pat (isLineTerminator c) cs"

section \<open>Filesystem scanner\<close>

text \<open>
  What \<^verbatim>\<open>latestMtimeRecursive\<close> can observe of a directory tree.  A directory entry is either
  not a directory (\<open>File\<close>: \<^verbatim>\<open>isDirectory()\<close> is false, which includes symbolic links) or a
  directory (\<open>Dir\<close>).  Each carries its name, the result of \<^verbatim>\<open>statSync\<close> (\<open>None\<close> when it
  throws, otherwise \<^verbatim>\<open>mtimeMs\<close>), and a directory carries what \<^verbatim>\<open>readdirSync\<close> returns for it
  (\<open>None\<close> when it throws).
\<close>

datatype entry =
    File jsstring "rat option"
  | Dir jsstring "rat option" "entry list option"

fun entryName :: "entry \<Rightarrow> jsstring" where
  "entryName (File n st) = n"
| "entryName (Dir n st l) = n"

fun entryStat :: "entry \<Rightarrow> rat option" where
  "entryStat (File n st) = st"
| "entryStat (Dir n st l) = st"

record scanResult =
  s_latest :: rat
  s_count :: int
  s_capped :: bool

text \<open>
  The pending directories: the script keeps their paths on an array used as a stack
  (\<^verbatim>\<open>push\<close>, \<^verbatim>\<open>pop\<close>); the model keeps, for each pending path, the listing that reading it
  will give, the top of the stack being the head of the list.
\<close>

type_synonym pending = "entry list option list"

fun scanEntries ::
  "jsstring list \<Rightarrow> int \<Rightarrow> entry list \<Rightarrow> rat \<Rightarrow> int \<Rightarrow> pending \<Rightarrow> scanResult + rat \<times> int \<times> pending"
where
  \<comment> \<open>the \<^verbatim>\<open>for (const e of entries)\<close> loop; \<open>Inl\<close> is its \<^verbatim>\<open>return\<close>\<close>
  "scanEntries skip maxFiles [] latest count stack = Inr (latest, count, stack)"
| "scanEntries skip maxFiles (e # es) latest count stack =
     (if entryName e \<in> set skip then scanEntries skip maxFiles es latest count stack
      else
        (let latest' = (case entryStat e of Some m \<Rightarrow> max latest m | None \<Rightarrow> latest);
             count' = (case entryStat e of Some m \<Rightarrow> count + 1 | None \<Rightarrow> count);
             stack' = (case e of Dir n st l \<Rightarrow> l # stack | File n st \<Rightarrow> stack)
         in if count' \<ge> maxFiles
            then Inl \<lparr>s_latest = latest', s_count = count', s_capped = True\<rparr>
            else scanEntries skip maxFiles es latest' count' stack'))"

fun entryWeight :: "entry \<Rightarrow> nat" where
  \<comment> \<open>the number of directories in an entry, the termination measure of the walk\<close>
  "entryWeight (File n st) = 0"
| "entryWeight (Dir n st None) = 1"
| "entryWeight (Dir n st (Some es)) = Suc (sum_list (map entryWeight es))"

definition listingWeight :: "entry list option \<Rightarrow> nat" where
  "listingWeight l = (case l of None \<Rightarrow> 1 | Some es \<Rightarrow> Suc (sum_list (map entryWeight es)))"

definition pendingWeight :: "pending \<Rightarrow> nat" where
  "pendingWeight stack = sum_list (map listingWeight stack)"

lemma entryWeight_Dir: "entryWeight (Dir n st l) = listingWeight l"
  by (cases l) (simp_all add: listingWeight_def)

lemma scanEntries_weight:
  "scanEntries skip maxFiles es latest count stack = Inr (latest', count', stack')
   \<Longrightarrow> pendingWeight stack' \<le> sum_list (map entryWeight es) + pendingWeight stack"
proof (induction es arbitrary: latest count stack)
  case Nil
  then show ?case by simp
next
  case (Cons e es)
  show ?case
  proof (cases "entryName e \<in> set skip")
    case True
    then show ?thesis using Cons.IH[of latest count stack] Cons.prems by simp
  next
    case False
    define l1 where "l1 = (case entryStat e of Some m \<Rightarrow> max latest m | None \<Rightarrow> latest)"
    define c1 where "c1 = (case entryStat e of Some m \<Rightarrow> count + 1 | None \<Rightarrow> count)"
    define s1 where "s1 = (case e of Dir n st l \<Rightarrow> l # stack | File n st \<Rightarrow> stack)"
    have rest: "scanEntries skip maxFiles es l1 c1 s1 = Inr (latest', count', stack')"
      using Cons.prems False by (simp add: l1_def c1_def s1_def Let_def split: if_splits)
    have "pendingWeight s1 = entryWeight e + pendingWeight stack"
      by (cases e) (simp_all add: s1_def pendingWeight_def entryWeight_Dir)
    then show ?thesis using Cons.IH[OF rest] by simp
  qed
qed

function walk :: "jsstring list \<Rightarrow> int \<Rightarrow> rat \<Rightarrow> int \<Rightarrow> pending \<Rightarrow> scanResult" where
  \<comment> \<open>the \<^verbatim>\<open>while (stack.length)\<close> loop\<close>
  "walk skip maxFiles latest count [] =
     \<lparr>s_latest = latest, s_count = count, s_capped = False\<rparr>"
| "walk skip maxFiles latest count (None # stack) = walk skip maxFiles latest count stack"
| "walk skip maxFiles latest count (Some entries # stack) =
     (case scanEntries skip maxFiles entries latest count stack of
        Inl result \<Rightarrow> result
      | Inr (latest', count', stack') \<Rightarrow> walk skip maxFiles latest' count' stack')"
  by pat_completeness auto
termination
proof (relation "measure (\<lambda>(skip, maxFiles, latest, count, stack). pendingWeight stack)")
  show "wf (measure (\<lambda>(skip, maxFiles, latest, count, stack). pendingWeight stack))"
    by simp
next
  fix skip :: "jsstring list" and maxFiles :: int and latest :: rat and count :: int
    and stack :: pending
  show "((skip, maxFiles, latest, count, stack), (skip, maxFiles, latest, count, None # stack))
          \<in> measure (\<lambda>(skip, maxFiles, latest, count, stack). pendingWeight stack)"
    by (simp add: pendingWeight_def listingWeight_def)
next
  fix skip :: "jsstring list" and maxFiles :: int and latest :: rat and count :: int
    and stack :: pending and entries x2 x y xa ya
  assume "scanEntries skip maxFiles entries latest count stack = Inr x2"
    and "(x, y) = x2" and "(xa, ya) = y"
  then have "scanEntries skip maxFiles entries latest count stack = Inr (x, xa, ya)" by simp
  from scanEntries_weight[OF this]
  show "((skip, maxFiles, x, xa, ya), (skip, maxFiles, latest, count, Some entries # stack))
          \<in> measure (\<lambda>(skip, maxFiles, latest, count, stack). pendingWeight stack)"
    by (simp add: pendingWeight_def listingWeight_def)
qed

definition skipNames :: "jsstring list" where
  \<comment> \<open>the names the data version 2 scanner passes over\<close>
  "skipNames = [asc ''.git'', asc ''node_modules'', asc ''.next'']"

definition skipNamesV1 :: "jsstring list" where
  \<comment> \<open>the names the data version 1 scanner passes over\<close>
  "skipNamesV1 = [asc ''.git'', asc ''node_modules'']"

definition latestMtimeRecursive :: "entry list option \<Rightarrow> int \<Rightarrow> scanResult" where
  \<comment> \<open>the first argument is the listing of the root directory; the default \<^verbatim>\<open>maxFiles\<close> is 7000\<close>
  "latestMtimeRecursive dir maxFiles = walk skipNames maxFiles 0 0 [dir]"

definition latestMtimeRecursiveV1 :: "entry list option \<Rightarrow> int \<Rightarrow> scanResult" where
  \<comment> \<open>the scanner of \<^verbatim>\<open>scripts/generate-live-data.js\<close>; its default \<^verbatim>\<open>maxFiles\<close> is 5000\<close>
  "latestMtimeRecursiveV1 dir maxFiles = walk skipNamesV1 maxFiles 0 0 [dir]"

fun visitable :: "jsstring list \<Rightarrow> entry \<Rightarrow> nat" where
  \<comment> \<open>the entries below (and including) an entry that an uncapped walk counts: those not
      passed over by name, not inside a directory passed over or unreadable, and whose
      \<^verbatim>\<open>statSync\<close> succeeds\<close>
  "visitable skip (File n st) = (if n \<in> set skip then 0 else if st = None then 0 else 1)"
| "visitable skip (Dir n st None) = (if n \<in> set skip then 0 else if st = None then 0 else 1)"
| "visitable skip (Dir n st (Some es)) =
     (if n \<in> set skip then 0
      else (if st = None then 0 else 1) + sum_list (map (visitable skip) es))"

definition visitableIn :: "jsstring list \<Rightarrow> entry list option \<Rightarrow> nat" where
  "visitableIn skip l = (case l of None \<Rightarrow> 0 | Some es \<Rightarrow> sum_list (map (visitable skip) es))"

definition visitablePending :: "jsstring list \<Rightarrow> pending \<Rightarrow> nat" where
  "visitablePending skip stack = sum_list (map (visitableIn skip) stack)"

section \<open>Version-control activity probe\<close>

text \<open>
  \<^verbatim>\<open>execSync\<close> either returns the standard output of a command that exited with status 0, or
  throws an error that may carry what the command wrote to its two output streams.
\<close>

datatype execOutcome =
    Exit0 jsstring
  | Threw "jsstring option" "jsstring option"

record execResult =
  ok :: bool
  out :: jsstring

text \<open>
  The system the commands run on: how it answers a command line issued in a working
  directory, and the commands issued so far, oldest first.
\<close>

record shell =
  answer :: "jsstring \<Rightarrow> jsstring \<Rightarrow> execOutcome"
  issued :: "(jsstring \<times> jsstring) list"

definition orEmpty :: "jsstring option \<Rightarrow> jsstring" where
  \<comment> \<open>\<^verbatim>\<open>s || ''\<close>\<close>
  "orEmpty s = (case s of None \<Rightarrow> [] | Some t \<Rightarrow> t)"

definition safeExec :: "jsstring \<Rightarrow> jsstring \<Rightarrow> shell \<Rightarrow> execResult \<times> shell" where
  "safeExec cmd cwd sh =
     ((case answer sh cwd cmd of
         Exit0 stdout \<Rightarrow> \<lparr>ok = True, out = trim stdout\<rparr>
       | Threw stdout stderr \<Rightarrow> \<lparr>ok = False, out = trim (orEmpty stdout @ orEmpty stderr)\<rparr>),
      sh\<lparr>issued := issued sh @ [(cwd, cmd)]\<rparr>)"

datatype confidenceLevel = high | medium | low

record gitActivity =
  g_commits7d :: int
  g_trend :: "int list"
  g_contributors7d :: int
  g_confidence :: confidenceLevel

definition bucketCommand :: "nat \<Rightarrow> jsstring" where
  \<comment> \<open>the log query of day bucket \<open>i\<close>\<close>
  "bucketCommand i =
     (let after = String (int i + 1) @ asc '' days ago'';
          before = String (int i) @ asc '' days ago''
      in asc ''git log --since='' @ dquote @ after @ dquote @ asc '' --until='' @ dquote @ before
           @ dquote @ asc '' --pretty=format:%H'')"

fun dayBuckets :: "nat \<Rightarrow> jsstring \<Rightarrow> int list \<Rightarrow> shell \<Rightarrow> int list \<times> shell" where
  \<comment> \<open>the loop \<^verbatim>\<open>for (let i = 6; i >= 0; i--)\<close>, started as \<open>dayBuckets 7\<close>: the first argument is
      \<open>i + 1\<close>\<close>
  "dayBuckets 0 dir counts sh = (counts, sh)"
| "dayBuckets (Suc i) dir counts sh =
     (let (res, sh') = safeExec (bucketCommand i) dir sh
      in dayBuckets i dir
           (counts @ [if ok res \<and> out res \<noteq> [] then int (length (nonEmptyLines (out res))) else 0])
           sh')"

definition zeroActivity :: gitActivity where
  "zeroActivity = \<lparr>g_commits7d = 0, g_trend = [0, 0, 0, 0, 0, 0, 0], g_contributors7d = 0,
                    g_confidence = low\<rparr>"

definition authorsCommand :: jsstring where
  "authorsCommand =
     asc ''git log --since='' @ dquote @ asc ''7 days ago'' @ dquote @ asc '' --pretty=format:%an''"

definition getGit7DayActivity :: "bool \<Rightarrow> jsstring \<Rightarrow> shell \<Rightarrow> gitActivity \<times> shell" where
  \<comment> \<open>the first argument is \<^verbatim>\<open>fs.existsSync(path.join(dir, '.git'))\<close>\<close>
  "getGit7DayActivity hasGit dir sh =
     (if \<not> hasGit then (zeroActivity, sh)
      else
        (let (counts, sh1) = dayBuckets 7 dir [] sh;
             (auth, sh2) = safeExec authorsCommand dir sh1;
             contributors7d = (if ok auth \<and> out auth \<noteq> []
                               then int (length (remdups (nonEmptyLines (out auth)))) else 0);
             commits7d = foldl (\<lambda>a b. a + b) 0 counts
         in (\<lparr>g_commits7d = commits7d, g_trend = counts, g_contributors7d = contributors7d,
              g_confidence = high\<rparr>, sh2)))"

text \<open>
  What bucket \<open>i\<close> contributes to the trend on a given system, for stating the result of
  the loop.
\<close>

definition bucketCount :: "shell \<Rightarrow> jsstring \<Rightarrow> nat \<Rightarrow> int" where
  "bucketCount sh dir i =
     (let res = fst (safeExec (bucketCommand i) dir sh)
      in if ok res \<and> out res \<noteq> [] then int (length (nonEmptyLines (out res))) else 0)"

section \<open>Scoring engine\<close>

datatype freshness = hot | warm | cold | unknown

definition classifyFreshness :: "rat option \<Rightarrow> freshness" where
  \<comment> \<open>\<open>None\<close> is \<^verbatim>\<open>null\<close>\<close>
  "classifyFreshness hours =
     (case hours of
        None \<Rightarrow> unknown
      | Some h \<Rightarrow> if h < 6 then hot else if h < 24 then warm else cold)"

definition freshnessName :: "freshness \<Rightarrow> jsstring" where
  \<comment> \<open>the string the script uses for a bucket\<close>
  "freshnessName f =
     (case f of hot \<Rightarrow> asc ''hot'' | warm \<Rightarrow> asc ''warm'' | cold \<Rightarrow> asc ''cold''
              | unknown \<Rightarrow> asc ''unknown'')"

definition confidenceName :: "confidenceLevel \<Rightarrow> jsstring" where
  "confidenceName c =
     (case c of high \<Rightarrow> asc ''high'' | medium \<Rightarrow> asc ''medium'' | low \<Rightarrow> asc ''low'')"

definition completionOf :: "todoCounts \<Rightarrow> int" where
  \<comment> \<open>\<^verbatim>\<open>Math.round((done / total) * 100)\<close>\<close>
  "completionOf todos =
     Math_round (js_mul (js_div (of_int (t_done todos)) (of_int (t_total todos))) 100)"

definition completionFromTodos :: "todoCounts \<Rightarrow> int option" where
  \<comment> \<open>\<open>None\<close> is \<^verbatim>\<open>null\<close>\<close>
  "completionFromTodos todos = (if t_total todos \<noteq> 0 then Some (completionOf todos) else None)"

definition progress :: "int option \<Rightarrow> freshness \<Rightarrow> int \<Rightarrow> int" where
  "progress completion freshness commits7d =
     max (max (case completion of None \<Rightarrow> 0 | Some c \<Rightarrow> c)
              (if freshness = hot then 70 else if freshness = warm then 52 else 34))
         (min 85 (commits7d * 8))"

definition roiScore :: "int \<Rightarrow> int \<Rightarrow> freshness \<Rightarrow> int" where
  "roiScore prog commits7d freshness =
     max 10 (min 99
       (Math_round
          (js_add (js_add (js_mul (of_int prog) (fl64 (55 / 100))) (of_int (commits7d * 3)))
                  (if freshness = hot then 15 else if freshness = warm then 7 else 2))))"

definition confidence :: "gitActivity \<Rightarrow> todoCounts \<Rightarrow> confidenceLevel" where
  "confidence git todos =
     (if g_confidence git = high then (if t_total todos \<noteq> 0 then high else medium) else low)"

definition iso :: "rat \<Rightarrow> int option" where
  \<comment> \<open>\<^verbatim>\<open>ms ? new Date(ms).toISOString() : null\<close>: the result stands for the ISO-8601 text of the
      time value of the date, which is the argument with its fraction cut off\<close>
  "iso ms = (if ms \<noteq> 0 then Some (if 0 \<le> ms then \<lfloor>ms\<rfloor> else \<lceil>ms\<rceil>) else None)"

definition freshnessHoursOf :: "int \<Rightarrow> rat \<Rightarrow> rat option" where
  \<comment> \<open>\<^verbatim>\<open>latest ? (Date.now() - latest) / 36e5 : null\<close>, the first argument being the value of
      \<^verbatim>\<open>Date.now()\<close>\<close>
  "freshnessHoursOf now latest =
     (if latest \<noteq> 0 then Some (js_div (js_sub (of_int now) latest) 3600000) else None)"

definition roundedHours :: "rat option \<Rightarrow> rat option" where
  \<comment> \<open>\<^verbatim>\<open>freshnessHours == null ? null : Math.round(freshnessHours * 10) / 10\<close>\<close>
  "roundedHours freshnessHours =
     (case freshnessHours of
        None \<Rightarrow> None
      | Some h \<Rightarrow> Some (js_div (of_int (Math_round (js_mul h 10))) 10))"

record project =
  p_id :: jsstring
  p_name :: jsstring
  p_path :: jsstring
  p_latestUpdate :: "int option"
  p_fileSignals :: "(int \<times> bool) option"
  p_freshnessHours :: "rat option"
  p_health :: jsstring
  p_progress :: int
  p_roiScore :: int
  p_confidence :: jsstring
  p_confidenceReason :: jsstring
  p_trend7d :: "int list"
  p_timeline :: "(jsstring \<times> jsstring \<times> jsstring) list"
  p_stats :: "(jsstring \<times> jsstring) list"
  p_actions :: "jsstring list"

definition scoreProject ::
  "int \<Rightarrow> jsstring \<Rightarrow> jsstring \<Rightarrow> scanResult \<Rightarrow> gitActivity \<Rightarrow> todoCounts \<Rightarrow> project"
where
  \<comment> \<open>the body of the callback of \<^verbatim>\<open>projectDirs.map\<close>, after its three probes have run; the
      first argument is the value of \<^verbatim>\<open>Date.now()\<close>.  \<open>p_fileSignals\<close> holds \<^verbatim>\<open>filesScanned\<close> and
      \<^verbatim>\<open>scanCapped\<close>, a timeline entry holds \<^verbatim>\<open>label\<close>, \<^verbatim>\<open>state\<close>, \<^verbatim>\<open>due\<close> and a stats entry
      \<^verbatim>\<open>label\<close>, \<^verbatim>\<open>value\<close>\<close>
  "scoreProject now name dir snap git todos =
     (let freshnessHours = freshnessHoursOf now (s_latest snap);
          freshness = classifyFreshness freshnessHours;
          prog = progress (completionFromTodos todos) freshness (g_commits7d git);
          roi = roiScore prog (g_commits7d git) freshness;
          conf = confidence git todos
      in \<lparr>p_id = name,
          p_name = displayName name,
          p_path = dir,
          p_latestUpdate = iso (s_latest snap),
          p_fileSignals = Some (s_count snap, s_capped snap),
          p_freshnessHours = roundedHours freshnessHours,
          p_health = freshnessName freshness,
          p_progress = prog,
          p_roiScore = roi,
          p_confidence = confidenceName conf,
          p_confidenceReason =
            (if conf = high then asc ''Built from git activity + explicit checklist evidence.''
             else if conf = medium then asc ''Built from git activity + filesystem recency proxies.''
             else asc ''Filesystem recency heuristic only; validate manually.''),
          p_trend7d = g_trend git,
          p_timeline =
            [(asc ''Scope lock'', asc ''done'', asc ''In progress week''),
             (asc ''Build sprint'', if prog > 45 then asc ''active'' else asc ''queued'',
              asc ''Next 24-48h''),
             (asc ''QA + operator review'', if prog > 72 then asc ''active'' else asc ''queued'',
              asc ''Next 48h''),
             (asc ''Deploy / handoff'', asc ''queued'', asc ''After QA gate'')],
          p_stats =
            [(asc ''ROI Priority'', String roi @ asc ''/100''),
             (asc ''7d Commits'', String (g_commits7d git)),
             (asc ''Contributors (7d)'', String (g_contributors7d git)),
             (asc ''TODO Open'', String (t_open todos))],
          p_actions =
            [asc ''Close 1 highest ROI blocker first'',
             asc ''Ship a visible operator-facing quality improvement'',
             asc ''Attach freshness + confidence labels to new metrics'']\<rparr>)"

text \<open>
  What one run observes of a project directory that exists: its name and path, the tree the
  scanner walks, the files the checklist reader sees, whether the repository marker is
  there, and the value \<^verbatim>\<open>Date.now()\<close> has when the directory is scored.
\<close>

record projectDir =
  pd_name :: jsstring
  pd_dir :: jsstring
  pd_entries :: "entry list option"
  pd_files :: "(jsstring \<times> jsstring) list option"
  pd_hasGit :: bool
  pd_now :: int

definition scanProject :: "projectDir \<Rightarrow> shell \<Rightarrow> project \<times> shell" where
  \<comment> \<open>the callback of \<^verbatim>\<open>projectDirs.map\<close>\<close>
  "scanProject p sh =
     (let snap = latestMtimeRecursive (pd_entries p) 7000;
          (git, sh') = getGit7DayActivity (pd_hasGit p) (pd_dir p) sh;
          todos = countTodosInProject (pd_files p)
      in (scoreProject (pd_now p) (pd_name p) (pd_dir p) snap git todos, sh'))"

fun scanProjects :: "projectDir list \<Rightarrow> shell \<Rightarrow> project list \<times> shell" where
  \<comment> \<open>\<^verbatim>\<open>projectDirs.map\<close>, in the order of the array\<close>
  "scanProjects [] sh = ([], sh)"
| "scanProjects (p # ps) sh =
     (let (x, sh1) = scanProject p sh; (xs, sh2) = scanProjects ps sh1 in (x # xs, sh2))"

section \<open>The fixed project and the snapshot\<close>

text \<open>
  What one run observes of the Polymarket documents: the path of the project, the text
  \<^verbatim>\<open>readText\<close> returns for \<^verbatim>\<open>TODO.md\<close>, the modification time of \<^verbatim>\<open>STATUS.md\<close> (\<open>None\<close> when
  the file does not exist) and the value \<^verbatim>\<open>Date.now()\<close> has when the entry is built.
\<close>

record polymarketDocs =
  pm_path :: jsstring
  pm_todo :: jsstring
  pm_statusMtime :: "rat option"
  pm_now :: int

definition polymarketProject :: "polymarketDocs \<Rightarrow> project" where
  \<comment> \<open>the object literal passed to \<^verbatim>\<open>projects.unshift\<close>; it has no \<^verbatim>\<open>fileSignals\<close>\<close>
  "polymarketProject d =
     (let polyTodoCounts = countTodoItems (pm_todo d)
      in \<lparr>p_id = asc ''polymarket'',
          p_name = asc ''Polymarket Bot'',
          p_path = pm_path d,
          p_latestUpdate = iso (case pm_statusMtime d of Some m \<Rightarrow> m | None \<Rightarrow> 0),
          p_fileSignals = None,
          p_freshnessHours =
            (case pm_statusMtime d of
               Some m \<Rightarrow>
                 Some (js_div (of_int (Math_round
                   (js_mul (js_div (js_sub (of_int (pm_now d)) m) 3600000) 10))) 10)
             | None \<Rightarrow> None),
          p_health = (if t_open polyTodoCounts > 0 then asc ''active'' else asc ''stable''),
          p_progress = (if t_total polyTodoCounts \<noteq> 0 then completionOf polyTodoCounts else 0),
          p_roiScore = (if t_open polyTodoCounts > 0 then 78 else 64),
          p_confidence = asc ''high'',
          p_confidenceReason =
            asc ''Derived from explicit TODO.md checklist state + STATUS.md timestamp.'',
          p_trend7d = [2, 3, 1, 4, 2, 2, 3],
          p_timeline =
            [(asc ''Market scan'', asc ''done'', asc ''Complete''),
             (asc ''Strategy tune'', asc ''active'', asc ''This week''),
             (asc ''Risk guardrail hardening'', asc ''queued'', asc ''Next gate''),
             (asc ''Execution window'', asc ''queued'', asc ''After guardrails'')],
          p_stats =
            [(asc ''TODO Open'', String (t_open polyTodoCounts)),
             (asc ''TODO Done'', String (t_done polyTodoCounts)),
             (asc ''Checklist Total'', String (t_total polyTodoCounts)),
             (asc ''ROI Priority'',
              String (if t_open polyTodoCounts > 0 then 78 else 64) @ asc ''/100'')],
          p_actions =
            [asc ''Close highest-risk open TODO first'',
             asc ''Update STATUS.md with current risk envelope'',
             asc ''Re-run dry-run checks before activation'']\<rparr>)"

definition sortKey :: "project \<Rightarrow> int" where
  \<comment> \<open>\<^verbatim>\<open>p.roiScore || 0\<close>\<close>
  "sortKey p = (if p_roiScore p = 0 then 0 else p_roiScore p)"

definition compareRoi :: "project \<Rightarrow> project \<Rightarrow> int" where
  \<comment> \<open>the comparator \<^verbatim>\<open>(a, b) => (b.roiScore || 0) - (a.roiScore || 0)\<close>\<close>
  "compareRoi a b = sortKey b - sortKey a"

fun insertRanked :: "project \<Rightarrow> project list \<Rightarrow> project list" where
  \<comment> \<open>puts a project in front of a list of projects that followed it in the array: behind
      those the comparator orders before it, in front of the others\<close>
  "insertRanked x [] = [x]"
| "insertRanked x (y # ys) =
     (if compareRoi x y > 0 then y # insertRanked x ys else x # y # ys)"

definition sortByRoi :: "project list \<Rightarrow> project list" where
  \<comment> \<open>\<^verbatim>\<open>[...projects].sort((a, b) => (b.roiScore || 0) - (a.roiScore || 0))\<close>: the sort of the
      language is stable, so with this comparator its result is the one list that holds the
      same projects in descending order of the key, projects of equal key in their
      original order; insertion from the right builds that list\<close>
  "sortByRoi ps = foldr insertRanked ps []"

record priorityModule =
  m_rank :: int
  m_id :: jsstring
  m_name :: jsstring
  m_roiScore :: int
  m_progress :: int
  m_confidence :: jsstring
  m_latestUpdate :: "int option"
  m_note :: jsstring

fun priorityFrom :: "nat \<Rightarrow> project list \<Rightarrow> priorityModule list" where
  \<comment> \<open>\<^verbatim>\<open>top.map((p, idx) => ...)\<close>, the first argument being the index of the head\<close>
  "priorityFrom idx [] = []"
| "priorityFrom idx (p # ps) =
     \<lparr>m_rank = int idx + 1, m_id = p_id p, m_name = p_name p, m_roiScore = p_roiScore p,
      m_progress = p_progress p, m_confidence = p_confidence p, m_latestUpdate = p_latestUpdate p,
      m_note = (case p_actions p of a # as \<Rightarrow> if a \<noteq> [] then a else asc ''Review next gate''
                | [] \<Rightarrow> asc ''Review next gate'')\<rparr>
     # priorityFrom (Suc idx) ps"

text \<open>
  The gateway probe is taken as its three results.  The digest and the team scene are
  reduced to the parts that a run computes: for each digest entry its value, confidence
  and time stamp (a time stamp is, as for \<open>iso\<close>, the time value behind the ISO-8601
  text), and the two status lines that name projects.
\<close>

record gatewayStatus =
  gatewayRunning :: bool
  gatewayRpcOk :: bool
  gatewayLastRun :: "jsstring option"

record clock =
  c_generatedAt :: int
  c_gatewayRuntime :: int
  c_topRoi :: int
  c_hotWarm :: int
  c_lastRun :: int

record digestEntry =
  d_title :: jsstring
  d_value :: jsstring
  d_delta :: jsstring
  d_confidence :: jsstring
  d_freshness :: jsstring
  d_timestamp :: int

record snapshot =
  generatedAt :: int
  dataVersion :: int
  digest :: "digestEntry list"
  priorityModules :: "priorityModule list"
  teamStatus :: "jsstring list"
  projects :: "project list"

definition allProjects :: "polymarketDocs \<Rightarrow> projectDir list \<Rightarrow> shell \<Rightarrow> project list" where
  \<comment> \<open>the array \<^verbatim>\<open>projects\<close> after \<^verbatim>\<open>unshift\<close>\<close>
  "allProjects pm dirs sh = polymarketProject pm # fst (scanProjects dirs sh)"

definition ranked :: "project list \<Rightarrow> project list" where
  "ranked ps = sortByRoi ps"

definition top :: "project list \<Rightarrow> project list" where
  \<comment> \<open>\<^verbatim>\<open>ranked.slice(0, 3)\<close>\<close>
  "top ps = take 3 (ranked ps)"

definition generate ::
  "clock \<Rightarrow> gatewayStatus \<Rightarrow> polymarketDocs \<Rightarrow> projectDir list \<Rightarrow> shell \<Rightarrow> snapshot"
where
  \<comment> \<open>the object \<^verbatim>\<open>data\<close> that is written to \<^verbatim>\<open>live-metrics.json\<close>\<close>
  "generate clk gw pm dirs sh =
     (let ps = allProjects pm dirs sh;
          top3 = top ps
      in \<lparr>generatedAt = c_generatedAt clk,
          dataVersion = 2,
          digest =
            [\<lparr>d_title = asc ''Gateway Runtime'',
              d_value = (if gatewayRunning gw then asc ''Running'' else asc ''Stopped''),
              d_delta = (if gatewayRpcOk gw then asc ''RPC healthy'' else asc ''RPC uncertain''),
              d_confidence = asc ''high'', d_freshness = asc ''live'',
              d_timestamp = c_gatewayRuntime clk\<rparr>,
             \<lparr>d_title = asc ''Top ROI Project'',
              d_value = (case top3 of
                           t # ts \<Rightarrow> p_name t @ asc '' ('' @ String (p_roiScore t) @ asc ''/100)''
                         | [] \<Rightarrow> asc ''N/A''),
              d_delta = asc ''Prioritize this in first operator pass'',
              d_confidence = (case top3 of
                                t # ts \<Rightarrow> if p_confidence t \<noteq> [] then p_confidence t else asc ''low''
                              | [] \<Rightarrow> asc ''low''),
              d_freshness = asc ''hourly'',
              d_timestamp = (case top3 of
                               t # ts \<Rightarrow> (case p_latestUpdate t of Some u \<Rightarrow> u | None \<Rightarrow> c_topRoi clk)
                             | [] \<Rightarrow> c_topRoi clk)\<rparr>,
             \<lparr>d_title = asc ''Projects Hot/Warm'',
              d_value = String (int (length (filter
                            (\<lambda>p. p_health p \<in> set [asc ''hot'', asc ''warm'', asc ''active'', asc ''stable''])
                            ps)))
                        @ asc ''/'' @ String (int (length ps)),
              d_delta = asc ''Cross-project execution energy'',
              d_confidence = asc ''medium'', d_freshness = asc ''hourly'',
              d_timestamp = c_hotWarm clk\<rparr>,
             \<lparr>d_title = asc ''Gateway Last Task Run'',
              d_value = (case gatewayLastRun gw of Some r \<Rightarrow> r | None \<Rightarrow> asc ''Unavailable''),
              d_delta = asc ''Scheduled task telemetry'',
              d_confidence = (case gatewayLastRun gw of Some r \<Rightarrow> asc ''high'' | None \<Rightarrow> asc ''low''),
              d_freshness = asc ''live'',
              d_timestamp = c_lastRun clk\<rparr>],
          priorityModules = priorityFrom 0 top3,
          teamStatus =
            [asc ''triaging ROI top 3: '' @ joinWith (asc '', '') (map p_name top3),
             asc ''driving ''
               @ (case top3 of
                    t # ts \<Rightarrow> if p_name t \<noteq> [] then p_name t else asc ''primary sprint''
                  | [] \<Rightarrow> asc ''primary sprint'')
               @ asc '' quality gate''],
          projects = ps\<rparr>)"

text \<open>
  A second run over the same workspace differs from the first in the values the clock
  has when the projects are scored.  \<open>atReadings\<close> gives the directories as such a run
  observes them, and \<open>sameFreshness\<close> says that a reading leads to the freshness bucket and
  to the rounded freshness hours that the reading of the first run led to.
\<close>

definition atReadings :: "int list \<Rightarrow> projectDir list \<Rightarrow> projectDir list" where
  "atReadings ts dirs = map (\<lambda>(t, d). d\<lparr>pd_now := t\<rparr>) (zip ts dirs)"

definition sameFreshness :: "int \<Rightarrow> projectDir \<Rightarrow> bool" where
  "sameFreshness t d =
     (let latest = s_latest (latestMtimeRecursive (pd_entries d) 7000)
      in classifyFreshness (freshnessHoursOf t latest)
           = classifyFreshness (freshnessHoursOf (pd_now d) latest)
         \<and> roundedHours (freshnessHoursOf t latest)
           = roundedHours (freshnessHoursOf (pd_now d) latest))"

section \<open>The formulas of the specification\<close>

text \<open>
  The scoring rules as the specification words them, to be compared with the code above:
  \<^verbatim>\<open>roiScore = clamp(10, 99, round(progress*0.55 + commits7d*3 + freshnessBonus))\<close> with a bonus
  of 15, 7 and 2 for hot, warm and anything else, and
  \<^verbatim>\<open>progress = max(completionFromTodos or 0, freshnessFloor(freshness), min(85, commits7d * 8))\<close>
  with a floor of 70, 52 and 34 for hot, warm and cold.  The specification gives no floor
  for a freshness that is not known.  \<open>specRoiScore\<close> reads the formula in the arithmetic of
  the script, \<open>exactRoiScore\<close> in exact arithmetic.
\<close>

definition clamp :: "int \<Rightarrow> int \<Rightarrow> int \<Rightarrow> int" where
  "clamp lo hi x = (if x < lo then lo else if hi < x then hi else x)"

fun freshnessBonus :: "freshness \<Rightarrow> rat" where
  "freshnessBonus hot = 15"
| "freshnessBonus warm = 7"
| "freshnessBonus f = 2"

definition specRoiScore :: "int \<Rightarrow> int \<Rightarrow> freshness \<Rightarrow> int" where
  "specRoiScore prog commits7d f =
     clamp 10 99 (Math_round
       (js_add (js_add (js_mul (of_int prog) (fl64 (55 / 100))) (of_int (commits7d * 3)))
               (freshnessBonus f)))"

definition exactRoiScore :: "int \<Rightarrow> int \<Rightarrow> freshness \<Rightarrow> int" where
  \<comment> \<open>the same formula in exact arithmetic, \<open>round\<close> taking a tie upwards\<close>
  "exactRoiScore prog commits7d f =
     clamp 10 99 \<lfloor>of_int prog * (55 / 100) + of_int commits7d * 3 + freshnessBonus f + 1 / 2\<rfloor>"


definition orZero :: "int option \<Rightarrow> int" where
  \<comment> \<open>\<^verbatim>\<open>completionFromTodos or 0\<close>\<close>
  "orZero c = (case c of None \<Rightarrow> 0 | Some v \<Rightarrow> v)"


text \<open>
  The checklist completion as the specification words it,
  \<^verbatim>\<open>completionFromTodos = round(100 * done/total)\<close> if \<^verbatim>\<open>total > 0\<close>, else null, in exact
  arithmetic, \<open>round\<close> taking a tie upwards; and the counts for which \<open>100 * done/total\<close> lies
  exactly halfway between two integers.
\<close>

definition exactCompletion :: "todoCounts \<Rightarrow> int option" where
  "exactCompletion todos =
     (if t_total todos \<noteq> 0
      then Some \<lfloor>100 * of_int (t_done todos) / of_int (t_total todos) + (1 / 2 :: rat)\<rfloor>
      else None)"

definition halfway :: "todoCounts \<Rightarrow> bool" where
  "halfway todos =
     (t_total todos \<noteq> 0 \<and> (200 * t_done todos + t_total todos) mod (2 * t_total todos) = 0)"

section \<open>Concrete workspaces\<close>

text \<open>
  Small inputs on which the theorems below are exercised.  Times are milliseconds since
  the epoch; \<open>1700000000000\<close> is 14 November 2023, 22:13:20 UTC.
\<close>

definition noShell :: shell where
  \<comment> \<open>a system on which every command fails to start\<close>
  "noShell = \<lparr>answer = (\<lambda>cwd cmd. Threw None None), issued = []\<rparr>"

definition gitShell :: shell where
  \<comment> \<open>a repository with two commits in the bucket of three days ago and one commit
      yesterday, by two authors; the query for the oldest bucket fails\<close>
  "gitShell =
     \<lparr>answer = (\<lambda>cwd cmd.
        if cmd = bucketCommand 6 then Threw (Some []) (Some (asc ''fatal: bad revision''))
        else if cmd = bucketCommand 3 then Exit0 (asc ''a1b2c3'' @ [0x0A] @ asc ''d4e5f6'' @ [0x0A])
        else if cmd = bucketCommand 1 then Exit0 (asc ''0a0b0c'')
        else if cmd = authorsCommand
        then Exit0 (asc ''Ada'' @ [0x0A] @ asc ''Bob'' @ [0x0A] @ asc ''Ada'')
        else Exit0 []),
      issued = []\<rparr>"

definition nightshiftDir :: projectDir where
  \<comment> \<open>a project edited one hour before it is scored, with a finished checklist and no
      repository\<close>
  "nightshiftDir =
     \<lparr>pd_name = asc ''nightshift'',
      pd_dir = asc ''/ws/nightshift'',
      pd_entries = Some [File (asc ''TODO.md'') (Some 1700000000000),
                         Dir (asc ''node_modules'') (Some 1700000900000) (Some [File (asc ''x.js'') (Some 1700000900000)]),
                         Dir (asc ''src'') (Some 1699999000000) (Some [File (asc ''main.js'') (Some 1699999000000)])],
      pd_files = Some [(asc ''TODO.md'', asc ''- [x] ship it''), (asc ''src'', [])],
      pd_hasGit = False,
      pd_now = 1700003600000\<rparr>"

definition emptyDir :: projectDir where
  \<comment> \<open>a project directory that exists and holds nothing\<close>
  "emptyDir =
     \<lparr>pd_name = asc ''overnight_ops'',
      pd_dir = asc ''/ws/overnight_ops'',
      pd_entries = Some [],
      pd_files = Some [],
      pd_hasGit = False,
      pd_now = 1700003600000\<rparr>"

definition noPolymarketDocs :: polymarketDocs where
  \<comment> \<open>neither \<^verbatim>\<open>TODO.md\<close> nor \<^verbatim>\<open>STATUS.md\<close> exists\<close>
  "noPolymarketDocs =
     \<lparr>pm_path = asc ''/workspace-dev/projects/polymarket'', pm_todo = [], pm_statusMtime = None,
      pm_now = 1700003600000\<rparr>"

definition someClock :: clock where
  "someClock = \<lparr>c_generatedAt = 1700003600001, c_gatewayRuntime = 1700003600001,
                c_topRoi = 1700003600001, c_hotWarm = 1700003600001, c_lastRun = 1700003600001\<rparr>"

definition gatewayDown :: gatewayStatus where
  "gatewayDown = \<lparr>gatewayRunning = False, gatewayRpcOk = False, gatewayLastRun = None\<rparr>"

fun flatDir :: "nat \<Rightarrow> entry list" where
  \<comment> \<open>a directory of \<open>n\<close> plain files named \<^verbatim>\<open>f0\<close>, \<^verbatim>\<open>f1\<close>, \<dots>, listed newest name first\<close>
  "flatDir 0 = []"
| "flatDir (Suc n) = File (0x66 # String (int n)) (Some 1700000000000) # flatDir n"

definition vendoredDir :: "entry list" where
  \<comment> \<open>a project directory that holds nothing but 6000 files below \<^verbatim>\<open>node_modules\<close>\<close>
  "vendoredDir = [Dir (asc ''node_modules'') (Some 1700000000000) (Some (flatDir 6000))]"

definition busyShell :: shell where
  \<comment> \<open>a repository with one commit in each of the seven day buckets, all by one author\<close>
  "busyShell =
     \<lparr>answer = (\<lambda>cwd cmd.
        if cmd = authorsCommand then Exit0 (asc ''Ada'' @ [0x0A])
        else Exit0 (asc ''9f8e7d'' @ [0x0A])),
      issued = []\<rparr>"

definition gitOnlyDir :: projectDir where
  \<comment> \<open>a project directory that holds nothing but its repository, which the scanner passes
      over\<close>
  "gitOnlyDir =
     \<lparr>pd_name = asc ''fresh_clone'',
      pd_dir = asc ''/ws/fresh_clone'',
      pd_entries = Some [Dir (asc ''.git'') (Some 1700000000000) (Some [File (asc ''HEAD'') (Some 1700000000000)])],
      pd_files = Some [(asc ''.git'', [])],
      pd_hasGit = True,
      pd_now = 1700003600000\<rparr>"

definition epochDir :: projectDir where
  \<comment> \<open>a project whose only file carries the modification time 0, as files unpacked without
      time stamps do; three of its four checklist items are done\<close>
  "epochDir =
     \<lparr>pd_name = asc ''unpacked'',
      pd_dir = asc ''/ws/unpacked'',
      pd_entries = Some [File (asc ''TODO.md'') (Some 0)],
      pd_files = Some [(asc ''TODO.md'',
                        asc ''- [x] a'' @ [0x0A] @ asc ''- [x] b'' @ [0x0A] @ asc ''- [X] c'' @ [0x0A]
                          @ asc ''- [ ] d'')],
      pd_hasGit = False,
      pd_now = 1700003600000\<rparr>"

section \<open>Properties of the number model\<close>

text \<open>
  Rounding to a double is monotone and leaves every integer below \<open>2 ^ 53\<close> unchanged.
  These two facts are all the scoring bounds need.
\<close>

lemma rne_of_int: "rne (of_int n) = n"
  by (simp add: rne_def)

lemma rne_mono: assumes "x \<le> y" shows "rne x \<le> rne y"
proof -
  have fl: "\<lfloor>x\<rfloor> \<le> \<lfloor>y\<rfloor>" using assms by (rule floor_mono)
  show ?thesis
  proof (cases "\<lfloor>x\<rfloor> = \<lfloor>y\<rfloor>")
    case True
    then show ?thesis using assms unfolding rne_def Let_def by auto
  next
    case False
    then have "\<lfloor>x\<rfloor> + 1 \<le> \<lfloor>y\<rfloor>" using fl by simp
    moreover have "rne x \<le> \<lfloor>x\<rfloor> + 1" unfolding rne_def Let_def by auto
    moreover have "\<lfloor>y\<rfloor> \<le> rne y" unfolding rne_def Let_def by auto
    ultimately show ?thesis by linarith
  qed
qed

lemma ilog2_bounds:
  assumes "0 < x"
  shows "2 powi (ilog2 x) \<le> x" and "x < 2 powi (ilog2 x + 1)"
proof -
  obtain a b where q: "quotient_of x = (a, b)" by (cases "quotient_of x")
  then have b: "0 < b" and x: "x = of_int a / of_int b"
    using quotient_of_denom_pos quotient_of_div by blast+
  have a: "0 < a" using assms b x by (simp add: zero_less_divide_iff)
  define d where "d = bitlen a - bitlen b"
  have la: "1 \<le> bitlen a" and lb: "1 \<le> bitlen b"
    using a b bitlen_eq_zero_iff[of a] bitlen_eq_zero_iff[of b] bitlen_nonneg[of a] bitlen_nonneg[of b]
    by linarith+
  have ra: "(2::rat) powi (bitlen a - 1) \<le> of_int a"
  proof -
    have "(2::int) ^ nat (bitlen a - 1) \<le> a" using bitlen_bounds[OF a] by simp
    then have "of_int ((2::int) ^ nat (bitlen a - 1)) \<le> (of_int a :: rat)" by (simp only: of_int_le_iff)
    then show ?thesis using la by (simp add: power_int_nonneg_exp)
  qed
  have ra': "of_int a < (2::rat) powi (bitlen a)"
  proof -
    have "a < (2::int) ^ nat (bitlen a)" using bitlen_bounds[OF a] by simp
    then have "(of_int a :: rat) < of_int ((2::int) ^ nat (bitlen a))" by (simp only: of_int_less_iff)
    then show ?thesis using la by (simp add: power_int_nonneg_exp)
  qed
  have rb: "(2::rat) powi (bitlen b - 1) \<le> of_int b"
  proof -
    have "(2::int) ^ nat (bitlen b - 1) \<le> b" using bitlen_bounds[OF b] by simp
    then have "of_int ((2::int) ^ nat (bitlen b - 1)) \<le> (of_int b :: rat)" by (simp only: of_int_le_iff)
    then show ?thesis using lb by (simp add: power_int_nonneg_exp)
  qed
  have rb': "of_int b < (2::rat) powi (bitlen b)"
  proof -
    have "b < (2::int) ^ nat (bitlen b)" using bitlen_bounds[OF b] by simp
    then have "(of_int b :: rat) < of_int ((2::int) ^ nat (bitlen b))" by (simp only: of_int_less_iff)
    then show ?thesis using lb by (simp add: power_int_nonneg_exp)
  qed
  have bpos: "(0::rat) < of_int b" using b by simp
  have lo: "(2::rat) powi (d - 1) < x"
  proof -
    have "(2::rat) powi (d - 1) * of_int b < 2 powi (d - 1) * 2 powi (bitlen b)"
      using rb' by (simp add: mult_strict_left_mono)
    also have "\<dots> = 2 powi (bitlen a - 1)"
      by (simp add: power_int_add[symmetric] d_def)
    also have "\<dots> \<le> of_int a" by (rule ra)
    finally show ?thesis using bpos by (simp add: x pos_less_divide_eq)
  qed
  have hi: "x < (2::rat) powi (d + 1)"
  proof -
    have "of_int a < (2::rat) powi (bitlen a)" by (rule ra')
    also have "\<dots> = 2 powi (d + 1) * 2 powi (bitlen b - 1)"
      by (simp add: power_int_add[symmetric] d_def)
    also have "\<dots> \<le> 2 powi (d + 1) * of_int b"
      using rb by (simp add: mult_left_mono)
    finally show ?thesis using bpos by (simp add: x pos_divide_less_eq)
  qed
  have il: "ilog2 x = (if 2 powi d \<le> x then d else d - 1)"
    by (simp add: ilog2_def q d_def Let_def)
  show "2 powi (ilog2 x) \<le> x" using lo il by auto
  show "x < 2 powi (ilog2 x + 1)" using hi il by (auto simp: not_le)
qed

lemma pow2i_less_D:
  assumes "(2::rat) powi m < 2 powi n"
  shows "m < n"
proof (rule ccontr)
  assume "\<not> m < n"
  then have "n \<le> m" by simp
  then have "(2::rat) powi n \<le> 2 powi m" by (rule power_int_increasing) simp
  with assms show False by simp
qed

lemma ilog2_mono:
  assumes "0 < x" "x \<le> y"
  shows "ilog2 x \<le> ilog2 y"
proof -
  have y: "0 < y" using assms by simp
  have "(2::rat) powi (ilog2 x) \<le> x" using ilog2_bounds(1)[OF assms(1)] .
  also have "x \<le> y" by fact
  also have "y < 2 powi (ilog2 y + 1)" using ilog2_bounds(2)[OF y] .
  finally have "ilog2 x < ilog2 y + 1" by (rule pow2i_less_D)
  then show ?thesis by simp
qed


lemma fl64_pos:
  assumes "0 < x"
  shows "fl64 x = of_int (rne (x / 2 powi (ilog2 x - 52))) * 2 powi (ilog2 x - 52)"
  using assms by (simp add: fl64_def Let_def)

lemma fl64_minus: "fl64 (- x) = - fl64 x"
  by (simp add: fl64_def Let_def)

lemma fl64_range:
  assumes "0 < x"
  shows "2 powi (ilog2 x) \<le> fl64 x" and "fl64 x \<le> 2 powi (ilog2 x + 1)"
proof -
  define q :: rat where "q = 2 powi (ilog2 x - 52)"
  have q: "0 < q" by (simp add: q_def)
  have e1: "2 powi (ilog2 x) = 2 ^ 52 * q"
    using power_int_add[of "2::rat" 52 "ilog2 x - 52"] by (simp add: q_def)
  have e2: "2 powi (ilog2 x + 1) = 2 ^ 53 * q"
    using power_int_add[of "2::rat" 53 "ilog2 x - 52"] by (simp add: q_def add.commute)
  have lo: "2 ^ 52 \<le> x / q"
    using ilog2_bounds(1)[OF assms] q by (simp add: e1 pos_le_divide_eq)
  have hi: "x / q \<le> 2 ^ 53"
    using ilog2_bounds(2)[OF assms] q by (simp add: e2 pos_divide_le_eq)
  have "rne (of_int (2 ^ 52)) \<le> rne (x / q)" by (rule rne_mono) (use lo in simp)
  then have l: "(2::rat) ^ 52 \<le> of_int (rne (x / q))"
    unfolding rne_of_int by (metis of_int_le_iff of_int_numeral of_int_power)
  have "rne (x / q) \<le> rne (of_int (2 ^ 53))" by (rule rne_mono) (use hi in simp)
  then have h: "of_int (rne (x / q)) \<le> (2::rat) ^ 53"
    unfolding rne_of_int by (metis of_int_le_iff of_int_numeral of_int_power)
  have f: "fl64 x = of_int (rne (x / q)) * q" using fl64_pos[OF assms] by (simp add: q_def)
  show "2 powi (ilog2 x) \<le> fl64 x" unfolding e1 f using l q by (simp only: mult_le_cancel_right_pos)
  show "fl64 x \<le> 2 powi (ilog2 x + 1)" unfolding e2 f using h q by (simp only: mult_le_cancel_right_pos)
qed

lemma fl64_pos_pos: "0 < x \<Longrightarrow> 0 < fl64 x"
  using fl64_range(1)[of x] zero_less_power_int[of "2::rat" "ilog2 x"] by linarith

lemma fl64_mono_pos:
  assumes "0 < x" "x \<le> y"
  shows "fl64 x \<le> fl64 y"
proof -
  have y: "0 < y" using assms by simp
  have le: "ilog2 x \<le> ilog2 y" using assms by (rule ilog2_mono)
  show ?thesis
  proof (cases "ilog2 x = ilog2 y")
    case True
    define q :: rat where "q = 2 powi (ilog2 x - 52)"
    have q: "0 < q" by (simp add: q_def)
    have "x / q \<le> y / q" using assms(2) q by (simp add: divide_right_mono)
    then have "rne (x / q) \<le> rne (y / q)" by (rule rne_mono)
    then have "(of_int (rne (x / q)) :: rat) \<le> of_int (rne (y / q))" by simp
    then have "of_int (rne (x / q)) * q \<le> of_int (rne (y / q)) * q"
      using q by (simp only: mult_le_cancel_right_pos)
    then show ?thesis using fl64_pos[OF assms(1)] fl64_pos[OF y] True by (simp add: q_def)
  next
    case False
    then have "ilog2 x + 1 \<le> ilog2 y" using le by simp
    then have "(2::rat) powi (ilog2 x + 1) \<le> 2 powi (ilog2 y)"
      by (rule power_int_increasing) simp
    then show ?thesis using fl64_range(2)[OF assms(1)] fl64_range(1)[OF y] by linarith
  qed
qed

lemma fl64_zero: "fl64 0 = 0"
  by (simp add: fl64_def)

lemma fl64_mono:
  assumes "x \<le> y"
  shows "fl64 x \<le> fl64 y"
proof -
  consider "0 < x" | "x \<le> 0" "0 < y" | "x = 0" "y = 0" | "x < 0" "y = 0" | "y < 0"
    using assms by fastforce
  then show ?thesis
  proof cases
    case 1
    then show ?thesis using assms by (rule fl64_mono_pos)
  next
    case 2
    have "fl64 x \<le> 0"
    proof (cases "x = 0")
      case True then show ?thesis by (simp add: fl64_zero)
    next
      case False
      then have "0 < - x" using 2 by simp
      then have "0 < fl64 (- x)" by (rule fl64_pos_pos)
      then show ?thesis by (simp add: fl64_minus)
    qed
    moreover have "0 < fl64 y" using 2 by (intro fl64_pos_pos)
    ultimately show ?thesis by simp
  next
    case 3
    then show ?thesis by simp
  next
    case 4
    then have "0 < fl64 (- x)" by (intro fl64_pos_pos) simp
    then show ?thesis using 4 by (simp add: fl64_minus fl64_zero)
  next
    case 5
    then have "0 < - y" "- y \<le> - x" using assms by simp_all
    then have "fl64 (- y) \<le> fl64 (- x)" by (rule fl64_mono_pos)
    then show ?thesis by (simp add: fl64_minus)
  qed
qed

lemma fl64_exact:
  assumes "0 < x" "x / 2 powi (ilog2 x - 52) = of_int k"
  shows "fl64 x = x"
proof -
  have "fl64 x = of_int k * 2 powi (ilog2 x - 52)"
    using fl64_pos[OF assms(1)] by (simp add: assms(2) rne_of_int)
  also have "\<dots> = x" using assms(2)[symmetric] by simp
  finally show ?thesis .
qed

lemma fl64_of_nat_pos:
  assumes "0 < n" "n < 2 ^ 53"
  shows "fl64 (of_int n) = of_int n"
proof -
  let ?x = "of_int n :: rat"
  have x: "0 < ?x" using assms by simp
  have "(2::rat) powi (ilog2 ?x) \<le> ?x" using ilog2_bounds(1)[OF x] .
  also have "?x < 2 ^ 53" using assms(2) by (metis of_int_less_iff of_int_numeral of_int_power)
  finally have "(2::rat) powi (ilog2 ?x) < 2 powi 53" by simp
  then have "ilog2 ?x < 53" by (rule pow2i_less_D)
  then have e: "0 \<le> 52 - ilog2 ?x" by simp
  have "?x / 2 powi (ilog2 ?x - 52) = ?x * 2 powi (52 - ilog2 ?x)"
    using power_int_minus[of "2::rat" "52 - ilog2 ?x"] by (simp add: field_simps)
  also have "\<dots> = ?x * 2 ^ nat (52 - ilog2 ?x)" using e by (simp add: power_int_nonneg_exp)
  also have "\<dots> = of_int (n * 2 ^ nat (52 - ilog2 ?x))" by simp
  finally show ?thesis by (rule fl64_exact[OF x])
qed

lemma fl64_of_int:
  assumes "\<bar>n\<bar> < 2 ^ 53"
  shows "fl64 (of_int n) = of_int n"
proof -
  consider "n = 0" | "0 < n" | "n < 0" by linarith
  then show ?thesis
  proof cases
    case 1 then show ?thesis by (simp add: fl64_zero)
  next
    case 2 then show ?thesis using assms by (intro fl64_of_nat_pos) simp_all
  next
    case 3
    then have "fl64 (of_int (- n)) = of_int (- n)" using assms by (intro fl64_of_nat_pos) simp_all
    then show ?thesis by (simp add: fl64_minus)
  qed
qed

text \<open>
  More generally rounding leaves every dyadic rational with a numerator below \<open>2 ^ 53\<close>
  unchanged, so a value between two such numbers stays between them.
\<close>

lemma fl64_dyadic_pos:
  assumes "0 < n" "n < 2 ^ 53"
  shows "fl64 (of_int n / 2 ^ j) = of_int n / 2 ^ j"
proof -
  let ?x = "of_int n / 2 ^ j :: rat"
  have x: "0 < ?x" using assms by simp
  have n53: "(of_int n :: rat) < 2 ^ 53"
    using assms(2) by (metis of_int_less_iff of_int_numeral of_int_power)
  have "(2::rat) powi (ilog2 ?x) \<le> ?x" using ilog2_bounds(1)[OF x] .
  also have "?x < 2 ^ 53 / 2 ^ j" using n53 by (simp add: divide_strict_right_mono)
  also have "\<dots> = 2 powi (53 - int j)"
    by (simp add: power_int_diff)
  finally have "ilog2 ?x < 53 - int j" by (rule pow2i_less_D)
  then have e: "0 \<le> 52 - ilog2 ?x - int j" by simp
  have "?x / 2 powi (ilog2 ?x - 52) = of_int n * (2 powi (52 - ilog2 ?x) / 2 powi (int j))"
    using power_int_minus[of "2::rat" "52 - ilog2 ?x"] by (simp add: field_simps)
  also have "2 powi (52 - ilog2 ?x) / 2 powi (int j) = (2::rat) powi (52 - ilog2 ?x - int j)"
    by (simp add: power_int_diff)
  also have "\<dots> = 2 ^ nat (52 - ilog2 ?x - int j)" using e by (simp add: power_int_nonneg_exp)
  also have "of_int n * 2 ^ nat (52 - ilog2 ?x - int j)
               = (of_int (n * 2 ^ nat (52 - ilog2 ?x - int j)) :: rat)" by simp
  finally show ?thesis by (rule fl64_exact[OF x])
qed

lemma fl64_dyadic:
  assumes "\<bar>n\<bar> < 2 ^ 53"
  shows "fl64 (of_int n / 2 ^ j) = of_int n / 2 ^ j"
proof -
  consider "n = 0" | "0 < n" | "n < 0" by linarith
  then show ?thesis
  proof cases
    case 1
    then show ?thesis by (simp add: fl64_zero)
  next
    case 2
    then show ?thesis using assms by (intro fl64_dyadic_pos) simp_all
  next
    case 3
    then have "fl64 (of_int (- n) / 2 ^ j) = of_int (- n) / 2 ^ j"
      using assms by (intro fl64_dyadic_pos) simp_all
    then show ?thesis using fl64_minus[of "of_int n / 2 ^ j"] by simp
  qed
qed

lemma fl64_between:
  assumes "of_int lo / 2 ^ j \<le> x" "x \<le> of_int hi / 2 ^ k"
    and "\<bar>lo\<bar> < 2 ^ 53" "\<bar>hi\<bar> < 2 ^ 53"
  shows "of_int lo / 2 ^ j \<le> fl64 x" "fl64 x \<le> of_int hi / 2 ^ k"
proof -
  show "of_int lo / 2 ^ j \<le> fl64 x"
    using fl64_mono[OF assms(1)] fl64_dyadic[OF assms(3), of j] by simp
  show "fl64 x \<le> of_int hi / 2 ^ k"
    using fl64_mono[OF assms(2)] fl64_dyadic[OF assms(4), of k] by simp
qed

text \<open>
  The distance between a number and its double: at most half a unit in the last place.
\<close>

lemma rne_error: "\<bar>of_int (rne x) - x\<bar> \<le> 1 / 2"
proof -
  have "of_int \<lfloor>x\<rfloor> \<le> x" "x < of_int \<lfloor>x\<rfloor> + 1" by linarith+
  then show ?thesis unfolding rne_def Let_def by (auto simp: abs_le_iff)
qed

lemma fl64_error:
  assumes "0 < x"
  shows "\<bar>fl64 x - x\<bar> \<le> 2 powi (ilog2 x - 53)"
proof -
  define q :: rat where "q = 2 powi (ilog2 x - 52)"
  have q: "0 < q" by (simp add: q_def)
  have half: "q / 2 = 2 powi (ilog2 x - 53)"
    using power_int_add[of "2::rat" "ilog2 x - 53" 1] by (simp add: q_def)
  have "fl64 x - x = (of_int (rne (x / q)) - x / q) * q"
    using q by (simp add: fl64_pos[OF assms] q_def[symmetric] field_simps)
  then have "\<bar>fl64 x - x\<bar> = \<bar>of_int (rne (x / q)) - x / q\<bar> * q"
    using q by (simp add: abs_mult)
  also have "\<dots> \<le> (1 / 2) * q"
    using rne_error[of "x / q"] q by (intro mult_right_mono) simp_all
  finally show ?thesis using half by simp
qed

lemma fl64_error_below:
  assumes "0 \<le> x" "x < 2 powi k"
  shows "\<bar>fl64 x - x\<bar> \<le> 2 powi (k - 54)"
proof (cases "x = 0")
  case True
  then show ?thesis by (simp add: fl64_zero)
next
  case False
  then have x: "0 < x" using assms(1) by simp
  have "(2::rat) powi (ilog2 x) \<le> x" using ilog2_bounds(1)[OF x] .
  then have "(2::rat) powi (ilog2 x) < 2 powi k" using assms(2) by simp
  then have "ilog2 x < k" by (rule pow2i_less_D)
  then have "ilog2 x - 53 \<le> k - 54" by simp
  then have "(2::rat) powi (ilog2 x - 53) \<le> 2 powi (k - 54)"
    by (rule power_int_increasing) simp
  then show ?thesis using fl64_error[OF x] by simp
qed

section \<open>Properties of the checklist parser\<close>

lemma anyItemAt_shape:
  assumes "anyItemAt s"
  obtains a b c d e rest where "s = a # b # c # d # e # rest"
    and "\<not> isLineTerminator a" "\<not> isLineTerminator b" "\<not> isLineTerminator c"
        "\<not> isLineTerminator d" "\<not> isLineTerminator e"
proof -
  from assms obtain a b c d e rest where s: "s = a # b # c # d # e # rest"
    by (cases s rule: anyItemAt.cases) auto
  with assms have "a = 0x2D" "b = 0x20" "c = 0x5B" "d = 0x20 \<or> d = 0x78 \<or> d = 0x58" "e = 0x5D"
    by auto
  then have "\<not> isLineTerminator a" "\<not> isLineTerminator b" "\<not> isLineTerminator c"
        "\<not> isLineTerminator d" "\<not> isLineTerminator e"
    by (auto simp: isLineTerminator_def)
  with s show thesis by (rule that)
qed

lemma doneItemAt_anyItemAt: "doneItemAt s \<Longrightarrow> anyItemAt s"
  by (cases s rule: anyItemAt.cases) auto

lemma lineStartMatches_hits:
  "\<forall>s. pat s \<longrightarrow> anyItemAt s \<Longrightarrow> lineStartMatches pat b s = lineStartHits pat b s"
proof (induction pat b s rule: lineStartMatches.induct)
  case (1 pat atLineStart)
  show ?case by simp
next
  case (2 pat atLineStart c cs)
  show ?case
  proof (cases "atLineStart \<and> pat (c # cs)")
    case True
    then have "anyItemAt (c # cs)" using "2.prems" by simp
    then obtain b' c' d e rest where cs: "cs = b' # c' # d # e # rest"
      and nl: "\<not> isLineTerminator c" "\<not> isLineTerminator b'" "\<not> isLineTerminator c'"
        "\<not> isLineTerminator d" "\<not> isLineTerminator e"
      by (rule anyItemAt_shape) auto
    have "lineStartMatches pat atLineStart (c # cs) = Suc (lineStartMatches pat False rest)"
      using True by (simp add: cs)
    also have "lineStartMatches pat False rest = lineStartHits pat False rest"
      using "2.IH"(1)[OF True "2.prems"] by (simp add: cs)
    also have "Suc (lineStartHits pat False rest) = lineStartHits pat atLineStart (c # cs)"
      using True nl by (simp add: cs)
    finally show ?thesis .
  next
    case False
    then show ?thesis using "2.IH"(2)[OF False "2.prems"] by auto
  qed
qed

lemma lineStartHits_mono:
  assumes "\<And>s. p s \<Longrightarrow> q s"
  shows "lineStartHits p b s \<le> lineStartHits q b s"
  using assms by (induction s arbitrary: b) (auto simp: le_SucI)

lemma done_le_total: "lineStartMatches doneItemAt True md \<le> lineStartMatches anyItemAt True md"
proof -
  have "lineStartMatches doneItemAt True md = lineStartHits doneItemAt True md"
    by (rule lineStartMatches_hits) (simp add: doneItemAt_anyItemAt)
  moreover have "lineStartMatches anyItemAt True md = lineStartHits anyItemAt True md"
    by (rule lineStartMatches_hits) simp
  moreover have "lineStartHits doneItemAt True md \<le> lineStartHits anyItemAt True md"
    by (rule lineStartHits_mono) (rule doneItemAt_anyItemAt)
  ultimately show ?thesis by simp
qed

section \<open>Properties of the filesystem scanner\<close>

text \<open>
  The counter of the walk grows by one for each entry it can count and the walk returns
  the moment the counter reaches the cap; so the outcome is decided by comparing the cap
  with the number of entries that an uncapped walk would count.
\<close>

lemma visitable_Dir:
  "visitable skip (Dir n st l) =
     (if n \<in> set skip then 0 else (if st = None then 0 else 1) + visitableIn skip l)"
  by (cases l) (simp_all add: visitableIn_def)

lemma scanEntries_Inl:
  "scanEntries skip cap es latest count stack = Inl r \<Longrightarrow> count < cap
   \<Longrightarrow> s_capped r \<and> s_count r = cap
       \<and> cap \<le> count + int (sum_list (map (visitable skip) es))"
proof (induction es arbitrary: latest count stack)
  case Nil
  then show ?case by simp
next
  case (Cons e es)
  show ?case
  proof (cases "entryName e \<in> set skip")
    case True
    then have v: "visitable skip e = 0" by (cases e) (simp_all add: visitable_Dir)
    from True Cons.prems have "scanEntries skip cap es latest count stack = Inl r" by simp
    from Cons.IH[OF this Cons.prems(2)] show ?thesis by (simp add: v)
  next
    case False
    define l1 where "l1 = (case entryStat e of Some m \<Rightarrow> max latest m | None \<Rightarrow> latest)"
    define c1 where "c1 = (case entryStat e of Some m \<Rightarrow> count + 1 | None \<Rightarrow> count)"
    define s1 where "s1 = (case e of Dir n st l \<Rightarrow> l # stack | File n st \<Rightarrow> stack)"
    have c1: "c1 = count + (if entryStat e = None then 0 else 1)"
      by (simp add: c1_def split: option.splits)
    have ve: "int (visitable skip e) \<ge> (if entryStat e = None then 0 else 1)"
      using False by (cases e) (simp_all add: visitable_Dir)
    show ?thesis
    proof (cases "cap \<le> c1")
      case True
      then have "r = \<lparr>s_latest = l1, s_count = c1, s_capped = True\<rparr>"
        using Cons.prems(1) False by (simp add: l1_def c1_def Let_def)
      moreover have "c1 = cap" using True Cons.prems(2) c1 by (simp split: if_splits)
      ultimately show ?thesis using ve c1 by (simp split: if_splits)
    next
      case c: False
      then have "scanEntries skip cap es l1 c1 s1 = Inl r"
        using Cons.prems(1) False by (simp add: l1_def c1_def s1_def Let_def)
      from Cons.IH[OF this] c have "s_capped r \<and> s_count r = cap
         \<and> cap \<le> c1 + int (sum_list (map (visitable skip) es))" by simp
      then show ?thesis using ve c1 by (simp split: if_splits)
    qed
  qed
qed

lemma scanEntries_Inr:
  "scanEntries skip cap es latest count stack = Inr (latest', count', stack') \<Longrightarrow> count < cap
   \<Longrightarrow> count' < cap
       \<and> count' + int (visitablePending skip stack')
           = count + int (sum_list (map (visitable skip) es)) + int (visitablePending skip stack)"
proof (induction es arbitrary: latest count stack)
  case Nil
  then show ?case by simp
next
  case (Cons e es)
  show ?case
  proof (cases "entryName e \<in> set skip")
    case True
    then have v: "visitable skip e = 0" by (cases e) (simp_all add: visitable_Dir)
    from True Cons.prems have "scanEntries skip cap es latest count stack = Inr (latest', count', stack')"
      by simp
    from Cons.IH[OF this Cons.prems(2)] show ?thesis by (simp add: v)
  next
    case False
    define l1 where "l1 = (case entryStat e of Some m \<Rightarrow> max latest m | None \<Rightarrow> latest)"
    define c1 where "c1 = (case entryStat e of Some m \<Rightarrow> count + 1 | None \<Rightarrow> count)"
    define s1 where "s1 = (case e of Dir n st l \<Rightarrow> l # stack | File n st \<Rightarrow> stack)"
    have step: "c1 + int (visitablePending skip s1)
                  = count + int (visitable skip e) + int (visitablePending skip stack)"
      using False
      by (cases e) (simp_all add: c1_def s1_def visitable_Dir visitablePending_def split: option.splits)
    have c: "\<not> cap \<le> c1" and rest: "scanEntries skip cap es l1 c1 s1 = Inr (latest', count', stack')"
      using Cons.prems(1) False by (simp_all add: l1_def c1_def s1_def Let_def split: if_splits)
    from Cons.IH[OF rest] c
    have "count' < cap \<and> count' + int (visitablePending skip stack')
            = c1 + int (sum_list (map (visitable skip) es)) + int (visitablePending skip s1)"
      by simp
    then show ?thesis using step by simp
  qed
qed

lemma walk_count:
  "count < cap \<Longrightarrow>
   (if cap \<le> count + int (visitablePending skip stack)
    then s_capped (walk skip cap latest count stack) \<and> s_count (walk skip cap latest count stack) = cap
    else \<not> s_capped (walk skip cap latest count stack)
         \<and> s_count (walk skip cap latest count stack) = count + int (visitablePending skip stack))"
proof (induction skip cap latest count stack rule: walk.induct)
  case (1 skip maxFiles latest count)
  then show ?case by (simp add: visitablePending_def)
next
  case (2 skip maxFiles latest count stack)
  then show ?case by (simp add: visitablePending_def visitableIn_def)
next
  case (3 skip maxFiles latest count entries stack)
  have vp: "int (visitablePending skip (Some entries # stack))
      = int (sum_list (map (visitable skip) entries)) + int (visitablePending skip stack)"
    by (simp add: visitablePending_def visitableIn_def)
  show ?case
  proof (cases "scanEntries skip maxFiles entries latest count stack")
    case (Inl r)
    from scanEntries_Inl[OF Inl "3.prems"] show ?thesis
      using Inl by (simp add: vp)
  next
    case (Inr t)
    obtain l1 c1 s1 where t: "t = (l1, c1, s1)" by (cases t)
    from scanEntries_Inr[OF Inr[unfolded t] "3.prems"]
    have c1: "c1 < maxFiles" and eq: "c1 + int (visitablePending skip s1)
           = count + int (sum_list (map (visitable skip) entries)) + int (visitablePending skip stack)"
      by simp_all
    have "walk skip maxFiles latest count (Some entries # stack) = walk skip maxFiles l1 c1 s1"
      using Inr t by simp
    moreover note "3.IH"[OF Inr t[symmetric] refl c1]
    ultimately show ?thesis using eq by (simp add: vp)
  qed
qed

lemma walk_root:
  assumes "1 \<le> cap"
  shows "(if cap \<le> int (visitableIn skip dir)
          then s_capped (walk skip cap 0 0 [dir]) \<and> s_count (walk skip cap 0 0 [dir]) = cap
          else \<not> s_capped (walk skip cap 0 0 [dir])
               \<and> s_count (walk skip cap 0 0 [dir]) = int (visitableIn skip dir))"
  using walk_count[of 0 cap skip "[dir]" 0] assms by (simp add: visitablePending_def)

lemma scanEntries_stops:
  "scanEntries skip cap es latest count stack = Inl r
   \<Longrightarrow> scanEntries skip cap (es @ rest) latest count stack = Inl r"
proof (induction es arbitrary: latest count stack)
  case Nil
  then show ?case by simp
next
  case (Cons e es)
  show ?case
  proof (cases "entryName e \<in> set skip")
    case True
    then show ?thesis using Cons.prems Cons.IH by simp
  next
    case False
    then show ?thesis using Cons.prems Cons.IH by (simp add: Let_def split: if_splits)
  qed
qed

lemma flatDir_length: "length (flatDir n) = n"
  by (induction n) simp_all

lemma flatDir_visitable:
  "visitableIn skipNames (Some (flatDir n)) = n" "visitableIn skipNamesV1 (Some (flatDir n)) = n"
  by (induction n) (simp_all add: visitableIn_def skipNames_def skipNamesV1_def asc_def)

section \<open>Properties of the scoring engine\<close>

lemma Math_round_bounds:
  assumes "of_int a \<le> x" "x \<le> of_int b"
  shows "a \<le> Math_round x" "Math_round x \<le> b"
proof -
  have "of_int a \<le> x + 1/2" using assms(1) by simp
  then show "a \<le> Math_round x" unfolding Math_round_def by (simp add: le_floor_iff)
  have "x + 1/2 < of_int (b + 1)" using assms(2) by simp
  then have "\<lfloor>x + 1/2\<rfloor> < b + 1" by (simp only: floor_less_iff)
  then show "Math_round x \<le> b" unfolding Math_round_def by simp
qed

lemma fl64_one: "fl64 1 = 1"
  using fl64_of_int[of 1] by simp

lemma fl64_hundred: "fl64 100 = 100"
  using fl64_of_int[of 100] by simp

lemma completionOf_bounds:
  assumes "0 \<le> t_done t" "t_done t \<le> t_total t" "t_total t \<noteq> 0"
  shows "0 \<le> completionOf t" "completionOf t \<le> 100"
proof -
  define x :: rat where "x = of_int (t_done t) / of_int (t_total t)"
  have tpos: "0 < t_total t" using assms by simp
  have x0: "0 \<le> x" using assms(1) tpos by (simp add: x_def)
  have x1: "x \<le> 1" using assms(2) tpos by (simp add: x_def)
  have y0: "0 \<le> fl64 x" using fl64_mono[OF x0] by (simp add: fl64_zero)
  have y1: "fl64 x \<le> 1" using fl64_mono[OF x1] by (simp add: fl64_one)
  have z0: "0 \<le> fl64 (fl64 x * 100)"
    using fl64_mono[of 0 "fl64 x * 100"] y0 by (simp add: fl64_zero)
  have z1: "fl64 (fl64 x * 100) \<le> 100"
    using fl64_mono[of "fl64 x * 100" 100] y1 by (simp add: fl64_hundred)
  have c: "completionOf t = Math_round (fl64 (fl64 x * 100))"
    by (simp add: completionOf_def js_mul_def js_div_def x_def)
  show "0 \<le> completionOf t" unfolding c by (rule Math_round_bounds(1)[of 0 _ 100]) (use z0 z1 in simp_all)
  show "completionOf t \<le> 100" unfolding c by (rule Math_round_bounds(2)[of 0 _ 100]) (use z0 z1 in simp_all)
qed

lemma progress_lower: "34 \<le> progress completion f c"
  unfolding progress_def by (cases f) (simp_all add: le_max_iff_disj)

lemma progress_upper:
  assumes "\<And>v. completion = Some v \<Longrightarrow> v \<le> 100"
  shows "progress completion f c \<le> 100"
  using assms unfolding progress_def by (cases completion; cases f) simp_all

lemma progress_of_todos_upper:
  assumes "0 \<le> t_done t" "t_done t \<le> t_total t"
  shows "progress (completionFromTodos t) f c \<le> 100"
proof (rule progress_upper)
  fix v assume "completionFromTodos t = Some v"
  then have "t_total t \<noteq> 0" and "v = completionOf t"
    by (simp_all add: completionFromTodos_def split: if_splits)
  then show "v \<le> 100" using completionOf_bounds(2)[OF assms] by simp
qed

lemma roiScore_range: "10 \<le> roiScore p c f \<and> roiScore p c f \<le> 99"
  by (simp add: roiScore_def)

lemma roiScore_spec: "roiScore p c f = specRoiScore p c f"
  by (cases f) (simp_all add: roiScore_def specRoiScore_def clamp_def)

lemma countTodoItems_ordered:
  "0 \<le> t_done (countTodoItems md) \<and> t_done (countTodoItems md) \<le> t_total (countTodoItems md)"
  using done_le_total[of md] by (simp add: countTodoItems_def Let_def)

lemma countTodosInProject_ordered:
  "0 \<le> t_done (countTodosInProject l) \<and> t_done (countTodosInProject l) \<le> t_total (countTodosInProject l)"
  by (cases l) (simp_all add: countTodosInProject_def countTodoItems_ordered)

lemma scoreProject_progress:
  "p_progress (scoreProject now name dir snap git todos)
     = progress (completionFromTodos todos)
         (classifyFreshness (freshnessHoursOf now (s_latest snap)))
         (g_commits7d git)"
  by (simp add: scoreProject_def Let_def)

lemma scoreProject_roiScore:
  "p_roiScore (scoreProject now name dir snap git todos)
     = roiScore (p_progress (scoreProject now name dir snap git todos)) (g_commits7d git)
         (classifyFreshness (freshnessHoursOf now (s_latest snap)))"
  by (simp add: scoreProject_def Let_def)

lemma scanProject_fst:
  "fst (scanProject p sh)
     = scoreProject (pd_now p) (pd_name p) (pd_dir p) (latestMtimeRecursive (pd_entries p) 7000)
         (fst (getGit7DayActivity (pd_hasGit p) (pd_dir p) sh)) (countTodosInProject (pd_files p))"
  by (simp add: scanProject_def Let_def split: prod.splits)

text \<open>
  The ROI score in exact arithmetic.  The literal \<^verbatim>\<open>0.55\<close> is a double slightly above
  \<open>11/20\<close>, and each of the three operations rounds; still the rounded sum is the one
  that exact arithmetic gives, for every progress from 0 to 100 and every commit count that
  is not negative.  The proof encloses each intermediate double between the two
  neighbours \<open>K - 1/2\<close> and \<open>K + 15/32\<close> of the exact sum, shifted, which rounding leaves
  alone.
\<close>

lemma literal_055: "fl64 (55 / 100) = 2476979795053773 / 4503599627370496"
  by code_simp


lemma Math_round_mono: "x \<le> y \<Longrightarrow> Math_round x \<le> Math_round y"
  unfolding Math_round_def by (intro floor_mono) simp

lemma Math_round_half: "Math_round (of_int n / 2 ^ j) = (2 * n + 2 ^ j) div (2 * 2 ^ j)"
proof -
  have "(of_int n / 2 ^ j + 1 / 2 :: rat) = of_int (2 * n + 2 ^ j) / of_int (2 * 2 ^ j)"
    by (simp add: field_simps)
  then show ?thesis
    unfolding Math_round_def by (simp only: floor_divide_of_int_eq)
qed

lemma roiScore_unfold:
  "roiScore p c f = clamp 10 99 (Math_round
     (fl64 (fl64 (fl64 (of_int p * fl64 (55 / 100)) + of_int (c * 3)) + freshnessBonus f)))"
  by (cases f) (simp_all add: roiScore_def clamp_def js_add_def js_mul_def)

lemma freshnessBonus_int:
  obtains b :: int where "freshnessBonus f = of_int b" "2 \<le> b" "b \<le> 15"
  by (cases f) (auto intro: that[of 15] that[of 7] that[of 2])

lemma roiScore_exact:
  assumes "0 \<le> p" "p \<le> 100" "0 \<le> c"
  shows "roiScore p c f
           = clamp 10 99 \<lfloor>of_int p * (11 / 20) + of_int c * 3 + freshnessBonus f + 1 / 2\<rfloor>"
proof -
  obtain b :: int where fb: "freshnessBonus f = of_int b" and b: "2 \<le> b" "b \<le> 15"
    by (rule freshnessBonus_int)
  define d :: rat where "d = fl64 (55 / 100)"
  define y1 where "y1 = fl64 (of_int p * d)"
  define y2 where "y2 = fl64 (y1 + of_int (c * 3))"
  define y3 where "y3 = fl64 (y2 + of_int b)"
  define K where "K = (11 * p + 60 * c + 20 * b + 10) div 20"
  have roi: "roiScore p c f = clamp 10 99 (Math_round y3)"
    by (simp add: roiScore_unfold fb y3_def y2_def y1_def d_def)
  have "(of_int p * (11 / 20) + of_int c * 3 + of_int b + 1 / 2 :: rat)
          = of_int (11 * p + 60 * c + 20 * b + 10) / of_int 20"
    by (simp add: field_simps)
  then have ex: "\<lfloor>of_int p * (11 / 20) + of_int c * 3 + freshnessBonus f + 1 / 2 :: rat\<rfloor> = K"
    unfolding fb K_def by (simp only: floor_divide_of_int_eq)
  have dval: "d = 2476979795053773 / 4503599627370496" unfolding d_def by (rule literal_055)
  have P: "(0::rat) \<le> of_int p" "(of_int p :: rat) \<le> 100" using assms by simp_all
  show ?thesis
  proof (cases "33 \<le> c")
    case True
    have "0 \<le> of_int p * d" using P by (simp add: dval)
    then have "fl64 0 \<le> y1" unfolding y1_def by (rule fl64_mono)
    then have y1: "0 \<le> y1" by (simp add: fl64_zero)
    have "(99::rat) \<le> of_int (c * 3)" using True by (simp add: of_int_le_iff[of 99, simplified])
    then have "of_int 99 \<le> y1 + of_int (c * 3)" using y1 by simp
    then have "fl64 (of_int 99) \<le> y2" unfolding y2_def by (rule fl64_mono)
    then have y2: "99 \<le> y2" using fl64_of_int[of 99] by simp
    have "(2::rat) \<le> of_int b" using b by simp
    then have "of_int 101 \<le> y2 + of_int b" using y2 by simp
    then have "fl64 (of_int 101) \<le> y3" unfolding y3_def by (rule fl64_mono)
    then have "of_int 101 \<le> y3" using fl64_of_int[of 101] by simp
    then have "of_int 101 \<le> y3 + 1 / 2" by simp
    then have r: "101 \<le> Math_round y3" unfolding Math_round_def by (simp only: le_floor_iff)
    have "101 \<le> K" unfolding K_def using True assms b by linarith
    then have "clamp 10 99 (Math_round y3) = 99" "clamp 10 99 K = 99"
      using r by (simp_all add: clamp_def)
    then show ?thesis by (simp only: roi ex)
  next
    case False
    then have c: "c \<le> 32" by simp
    define N where "N = 11 * p + 60 * c + 20 * b"
    have Kl: "20 * K \<le> N + 10" and Ku: "N + 10 \<le> 20 * K + 19"
      unfolding K_def N_def
      using mult_div_mod_eq[of 20 "11 * p + 60 * c + 20 * b + 10"]
        pos_mod_bound[of 20 "11 * p + 60 * c + 20 * b + 10"]
        pos_mod_sign[of 20 "11 * p + 60 * c + 20 * b + 10"]
      by linarith+
    have Kb: "0 \<le> K" "K \<le> 167" using Kl Ku assms c b unfolding N_def by linarith+
    have Klr: "20 * (of_int K :: rat) \<le> 11 * of_int p + 60 * of_int c + 20 * of_int b + 10"
    proof -
      have "(of_int (20 * K) :: rat) \<le> of_int (N + 10)" using Kl by (simp only: of_int_le_iff)
      then show ?thesis by (simp add: N_def)
    qed
    have Kur: "11 * (of_int p :: rat) + 60 * of_int c + 20 * of_int b \<le> 20 * of_int K + 9"
    proof -
      have "N \<le> 20 * K + 9" using Ku by simp
      then have "(of_int N :: rat) \<le> of_int (20 * K + 9)" by (simp only: of_int_le_iff)
      then show ?thesis by (simp add: N_def)
    qed
    have lo1: "of_int (2 * K - 1 - 6 * c - 2 * b) / 2 ^ 1 \<le> of_int p * d"
      using Klr P by (simp add: dval field_simps)
    have hi1: "of_int p * d \<le> of_int (32 * K + 15 - 96 * c - 32 * b) / 2 ^ 5"
      using Kur P by (simp add: dval field_simps)
    have y1: "of_int (2 * K - 1 - 6 * c - 2 * b) / 2 ^ 1 \<le> y1"
        "y1 \<le> of_int (32 * K + 15 - 96 * c - 32 * b) / 2 ^ 5"
      unfolding y1_def using fl64_between[OF lo1 hi1] Kb assms c b by simp_all
    have lo2: "of_int (2 * K - 1 - 2 * b) / 2 ^ 1 \<le> y1 + of_int (c * 3)"
      using y1(1) by (simp add: field_simps)
    have hi2: "y1 + of_int (c * 3) \<le> of_int (32 * K + 15 - 32 * b) / 2 ^ 5"
      using y1(2) by (simp add: field_simps)
    have y2: "of_int (2 * K - 1 - 2 * b) / 2 ^ 1 \<le> y2" "y2 \<le> of_int (32 * K + 15 - 32 * b) / 2 ^ 5"
      unfolding y2_def using fl64_between[OF lo2 hi2] Kb b by simp_all
    have lo3: "of_int (2 * K - 1) / 2 ^ 1 \<le> y2 + of_int b"
      using y2(1) by (simp add: field_simps)
    have hi3: "y2 + of_int b \<le> of_int (32 * K + 15) / 2 ^ 5"
      using y2(2) by (simp add: field_simps)
    have y3: "of_int (2 * K - 1) / 2 ^ 1 \<le> y3" "y3 \<le> of_int (32 * K + 15) / 2 ^ 5"
      unfolding y3_def using fl64_between[OF lo3 hi3] Kb by simp_all
    have "(2 * (2 * K - 1) + 2 ^ 1) div (2 * 2 ^ 1) = (K * 4) div 4" by simp
    then have m1: "Math_round (of_int (2 * K - 1) / 2 ^ 1) = K"
      unfolding Math_round_half by simp
    have "(2 * (32 * K + 15) + 2 ^ 5) div (2 * 2 ^ 5) = (62 + K * 64) div 64" by simp
    then have m2: "Math_round (of_int (32 * K + 15) / 2 ^ 5) = K"
      unfolding Math_round_half by simp
    have lower: "K \<le> Math_round y3"
      using Math_round_mono[OF y3(1)] unfolding m1 .
    have upper: "Math_round y3 \<le> K"
      using Math_round_mono[OF y3(2)] unfolding m2 .
    have "Math_round y3 = K" using lower upper by simp
    then show ?thesis by (simp only: roi ex)
  qed
qed

text \<open>
  The checklist completion in exact arithmetic.  The script computes
  \<^verbatim>\<open>Math.round((done / total) * 100)\<close>: the quotient is rounded to a double, and so is the
  product.  For counts below \<open>2\<^sup>3\<^sup>2\<close> the two roundings move the product by less than
  \<open>2\<^sup>-\<^sup>4\<^sup>5\<close>, which is less than the distance \<open>1 / (2 * total)\<close> between \<open>100 * done/total\<close> and
  the nearest number halfway between two integers that it is not equal to.  So the
  result is \<open>round(100 * done/total)\<close> unless \<open>100 * done/total\<close> is itself halfway, and then
  it is that value or the one below.
\<close>

lemma completionOf_exact:
  assumes "0 \<le> t_done t" "t_done t \<le> t_total t" "t_total t \<noteq> 0" "t_total t < 2 ^ 32"
  shows "exactCompletion t = Some K \<Longrightarrow> K - 1 \<le> completionOf t"
    and "exactCompletion t = Some K \<Longrightarrow> completionOf t \<le> K"
    and "\<not> halfway t \<Longrightarrow> completionFromTodos t = exactCompletion t"
proof -
  define d where "d = t_done t"
  define n where "n = t_total t"
  define D :: rat where "D = of_int d"
  define T :: rat where "T = of_int n"
  define x where "x = D / T"
  define w where "w = fl64 x"
  define y where "y = fl64 (w * 100)"
  define Kq where "Kq = (200 * d + n) div (2 * n)"
  define r where "r = (200 * d + n) mod (2 * n)"
  define u :: rat where "u = 1 / (2 * T)"
  have n: "0 < n" "n < 2 ^ 32" and d: "0 \<le> d" "d \<le> n" using assms by (simp_all add: n_def d_def)
  have T: "0 < T" unfolding T_def using n by simp
  have T32: "T < 2 ^ 32"
  proof -
    have "(of_int n :: rat) < of_int (2 ^ 32)" using n(2) by (simp only: of_int_less_iff)
    then show ?thesis by (simp add: T_def)
  qed
  have D: "0 \<le> D" "D \<le> T" unfolding D_def T_def using d by simp_all
  have x: "0 \<le> x" "x \<le> 1" unfolding x_def using D T by simp_all
  have e1: "\<bar>w - x\<bar> \<le> 1 / 2 ^ 53"
    unfolding w_def using fl64_error_below[of x 1] x by simp
  have w: "0 \<le> w" "w \<le> 1"
    unfolding w_def using fl64_mono[OF x(1)] fl64_mono[OF x(2)] by (simp_all add: fl64_zero fl64_one)
  have e2: "\<bar>y - w * 100\<bar> \<le> 1 / 2 ^ 47"
    unfolding y_def using fl64_error_below[of "w * 100" 7] w by simp
  define eps :: rat where "eps = 1 / 2 ^ 45"
  have err: "y - 100 * x \<le> eps" "100 * x - y \<le> eps"
    using e1 e2 unfolding abs_le_iff eps_def by simp_all
  have u: "eps < u" "0 < u"
    unfolding u_def eps_def using T T32 by (simp_all add: field_simps)
  have eps: "eps < 1" unfolding eps_def by simp
  have c: "completionOf t = \<lfloor>y + 1 / 2\<rfloor>"
    by (simp add: completionOf_def Math_round_def js_mul_def js_div_def y_def w_def x_def D_def T_def
        d_def n_def)
  have r: "0 \<le> r" "r < 2 * n" unfolding r_def using n by simp_all
  have split: "200 * d + n = 2 * n * Kq + r"
    unfolding Kq_def r_def by simp
  have "(of_int (200 * d + n) :: rat) = of_int (2 * n * Kq + r)" by (simp only: split)
  then have "200 * D + T = 2 * T * of_int Kq + of_int r" by (simp add: D_def T_def)
  then have half: "100 * x + 1 / 2 = of_int Kq + of_int r * u"
    unfolding x_def u_def using T by (simp add: field_simps)
  have ex: "exactCompletion t = Some Kq"
  proof -
    have "(100 * of_int (t_done t) / of_int (t_total t) + 1 / 2 :: rat)
            = of_int (200 * d + n) / of_int (2 * n)"
      using n by (simp add: d_def n_def field_simps)
    then have "\<lfloor>100 * of_int (t_done t) / of_int (t_total t) + (1 / 2 :: rat)\<rfloor> = Kq"
      unfolding Kq_def by (simp only: floor_divide_of_int_eq)
    then show ?thesis using assms(3) by (simp add: exactCompletion_def)
  qed
  have ru: "of_int r * u \<le> 1 - u"
  proof -
    have "r + 1 \<le> 2 * n" using r by simp
    then have "(of_int (r + 1) :: rat) \<le> of_int (2 * n)" by (simp only: of_int_le_iff)
    then have "(of_int r + 1) * u \<le> (2 * T) * u"
      using u(2) by (intro mult_right_mono) (simp_all add: T_def)
    also have "(2 * T) * u = 1" unfolding u_def using T by simp
    finally show ?thesis by (simp add: algebra_simps)
  qed
  have ru0: "0 \<le> of_int r * u" using r(1) u(2) by simp
  have upper: "completionOf t \<le> Kq"
  proof -
    have "y + 1 / 2 < of_int Kq + 1"
      using err(1) half ru u(1) by linarith
    then have "y + 1 / 2 < of_int (Kq + 1)" by simp
    then have "\<lfloor>y + 1 / 2\<rfloor> < Kq + 1" by (simp only: floor_less_iff)
    then show ?thesis by (simp add: c)
  qed
  have lower: "Kq - 1 \<le> completionOf t"
  proof -
    have "of_int Kq - 1 \<le> y + 1 / 2"
      using err(2) half ru0 eps by linarith
    then have "of_int (Kq - 1) \<le> y + 1 / 2" by simp
    then show ?thesis unfolding c by (simp only: le_floor_iff)
  qed
  show "exactCompletion t = Some K \<Longrightarrow> K - 1 \<le> completionOf t" using lower ex by simp
  show "exactCompletion t = Some K \<Longrightarrow> completionOf t \<le> K" using upper ex by simp
  show "completionFromTodos t = exactCompletion t" if nh: "\<not> halfway t"
  proof -
    have "r \<noteq> 0" using nh assms(3) by (simp add: halfway_def r_def d_def n_def)
    then have "1 \<le> r" using r(1) by simp
    then have "(of_int 1 :: rat) \<le> of_int r" by (simp only: of_int_le_iff)
    then have "1 * u \<le> of_int r * u" using u(2) by (intro mult_right_mono) simp_all
    then have ge: "u \<le> of_int r * u" by (simp only: mult_1)
    have "of_int Kq \<le> y + 1 / 2"
      using err(2) half u(1) ge by linarith
    then have "Kq \<le> completionOf t" unfolding c by (simp only: le_floor_iff)
    then have "completionOf t = Kq" using upper by simp
    then show ?thesis using ex assms(3) by (simp add: completionFromTodos_def)
  qed
qed

lemma completionFromTodos_exact:
  assumes "0 \<le> t_done t" "t_done t \<le> t_total t" "t_total t < 2 ^ 32" "\<not> halfway t"
  shows "completionFromTodos t = exactCompletion t"
proof (cases "t_total t = 0")
  case True
  then show ?thesis by (simp add: completionFromTodos_def exactCompletion_def)
next
  case False
  then show ?thesis using completionOf_exact(3)[of t] assms by simp
qed




lemma progress_unknown:
  "progress completion unknown c = max (max (orZero completion) 34) (min 85 (c * 8))"
  by (simp add: progress_def orZero_def)

lemma classifyFreshness_unknown: "classifyFreshness (freshnessHoursOf now 0) = unknown"
  by (simp add: classifyFreshness_def freshnessHoursOf_def)

section \<open>Properties of the activity probe\<close>

text \<open>
  Running a command only extends the list of issued commands, so what a command returns
  does not depend on that list, and the loop over the day buckets can be written in closed
  form.
\<close>

lemma safeExec_snd: "snd (safeExec cmd cwd sh) = sh\<lparr>issued := issued sh @ [(cwd, cmd)]\<rparr>"
  by (simp add: safeExec_def)

lemma safeExec_fst_issued: "fst (safeExec cmd cwd (sh\<lparr>issued := l\<rparr>)) = fst (safeExec cmd cwd sh)"
  by (simp add: safeExec_def)

lemma bucketCount_issued: "bucketCount (sh\<lparr>issued := l\<rparr>) dir i = bucketCount sh dir i"
  by (simp add: bucketCount_def safeExec_fst_issued)

lemma bucketCount_Threw:
  "answer sh dir (bucketCommand i) = Threw so se \<Longrightarrow> bucketCount sh dir i = 0"
  by (simp add: bucketCount_def safeExec_def)

lemma dayBuckets_eq:
  "dayBuckets n dir counts sh
     = (counts @ map (bucketCount sh dir) (rev [0..<n]),
        sh\<lparr>issued := issued sh @ map (\<lambda>i. (dir, bucketCommand i)) (rev [0..<n])\<rparr>)"
proof (induction n arbitrary: counts sh)
  case 0
  show ?case by simp
next
  case (Suc n)
  obtain res sh' where se: "safeExec (bucketCommand n) dir sh = (res, sh')"
    by (cases "safeExec (bucketCommand n) dir sh")
  then have sh': "sh' = sh\<lparr>issued := issued sh @ [(dir, bucketCommand n)]\<rparr>"
    using safeExec_snd[of "bucketCommand n" dir sh] by simp
  have c: "(if ok res \<and> out res \<noteq> [] then int (length (nonEmptyLines (out res))) else 0)
             = bucketCount sh dir n"
    using se by (simp add: bucketCount_def)
  show ?case
    by (simp add: se c Suc.IH) (simp add: sh' bucketCount_issued)
qed

lemma foldl_add_sum_list: "foldl (\<lambda>a b. a + b) (a::int) xs = a + sum_list xs"
  by (induction xs arbitrary: a) simp_all

lemma rev_upt_7: "rev [0..<7] = [6, 5, 4, 3, 2, 1, 0::nat]"
  by (simp add: upt_rec)

lemma getGit7DayActivity_marker:
  "getGit7DayActivity True dir sh
     = (\<lparr>g_commits7d = sum_list (map (bucketCount sh dir) [6, 5, 4, 3, 2, 1, 0]),
         g_trend = map (bucketCount sh dir) [6, 5, 4, 3, 2, 1, 0],
         g_contributors7d =
           (let auth = fst (safeExec authorsCommand dir sh)
            in if ok auth \<and> out auth \<noteq> [] then int (length (remdups (nonEmptyLines (out auth))))
               else 0),
         g_confidence = high\<rparr>,
        sh\<lparr>issued := issued sh @ map (\<lambda>i. (dir, bucketCommand i)) [6, 5, 4, 3, 2, 1, 0]
                                 @ [(dir, authorsCommand)]\<rparr>)"
proof -
  let ?sh1 = "sh\<lparr>issued := issued sh @ map (\<lambda>i. (dir, bucketCommand i)) (rev [0..<7])\<rparr>"
  obtain auth sh2 where se: "safeExec authorsCommand dir ?sh1 = (auth, sh2)"
    by (cases "safeExec authorsCommand dir ?sh1")
  have auth: "auth = fst (safeExec authorsCommand dir sh)"
    using se safeExec_fst_issued[where cmd = authorsCommand and cwd = dir and sh = sh] by (metis fst_conv)
  have sh2: "sh2 = ?sh1\<lparr>issued := issued ?sh1 @ [(dir, authorsCommand)]\<rparr>"
    using se safeExec_snd[of authorsCommand dir ?sh1] by simp
  show ?thesis
    unfolding getGit7DayActivity_def
    by (simp add: dayBuckets_eq se Let_def foldl_add_sum_list del: upt_Suc)
       (auto simp add: auth sh2 rev_upt_7)
qed

section \<open>The concrete workspaces, evaluated\<close>

text \<open>
  A directory without the repository marker leaves the command log alone and is scored
  the same on every system.  The two example directories are scored once here.
\<close>

lemma scanProject_snd_noGit: "\<not> pd_hasGit p \<Longrightarrow> snd (scanProject p sh) = sh"
  by (simp add: scanProject_def getGit7DayActivity_def Let_def)

lemma scanProject_fst_noGit:
  "\<not> pd_hasGit p \<Longrightarrow> fst (scanProject p sh) = fst (scanProject p noShell)"
  by (simp add: scanProject_def getGit7DayActivity_def Let_def)

lemma nightshift_scored:
  "fst (scanProject nightshiftDir noShell) =
     \<lparr>p_id = asc ''nightshift'',
      p_name = asc ''Nightshift'',
      p_path = asc ''/ws/nightshift'',
      p_latestUpdate = Some 1700000000000,
      p_fileSignals = Some (3, False),
      p_freshnessHours = Some 1,
      p_health = asc ''hot'',
      p_progress = 100,
      p_roiScore = 70,
      p_confidence = asc ''low'',
      p_confidenceReason = asc ''Filesystem recency heuristic only; validate manually.'',
      p_trend7d = [0, 0, 0, 0, 0, 0, 0],
      p_timeline =
        [(asc ''Scope lock'', asc ''done'', asc ''In progress week''),
         (asc ''Build sprint'', asc ''active'', asc ''Next 24-48h''),
         (asc ''QA + operator review'', asc ''active'', asc ''Next 48h''),
         (asc ''Deploy / handoff'', asc ''queued'', asc ''After QA gate'')],
      p_stats =
        [(asc ''ROI Priority'', asc ''70/100''),
         (asc ''7d Commits'', asc ''0''),
         (asc ''Contributors (7d)'', asc ''0''),
         (asc ''TODO Open'', asc ''0'')],
      p_actions =
        [asc ''Close 1 highest ROI blocker first'',
         asc ''Ship a visible operator-facing quality improvement'',
         asc ''Attach freshness + confidence labels to new metrics'']\<rparr>"
  by code_simp

lemma emptyDir_scored:
  "fst (scanProject emptyDir noShell) =
     \<lparr>p_id = asc ''overnight_ops'',
      p_name = asc ''Overnight Ops'',
      p_path = asc ''/ws/overnight_ops'',
      p_latestUpdate = None,
      p_fileSignals = Some (0, False),
      p_freshnessHours = None,
      p_health = asc ''unknown'',
      p_progress = 34,
      p_roiScore = 21,
      p_confidence = asc ''low'',
      p_confidenceReason = asc ''Filesystem recency heuristic only; validate manually.'',
      p_trend7d = [0, 0, 0, 0, 0, 0, 0],
      p_timeline =
        [(asc ''Scope lock'', asc ''done'', asc ''In progress week''),
         (asc ''Build sprint'', asc ''queued'', asc ''Next 24-48h''),
         (asc ''QA + operator review'', asc ''queued'', asc ''Next 48h''),
         (asc ''Deploy / handoff'', asc ''queued'', asc ''After QA gate'')],
      p_stats =
        [(asc ''ROI Priority'', asc ''21/100''),
         (asc ''7d Commits'', asc ''0''),
         (asc ''Contributors (7d)'', asc ''0''),
         (asc ''TODO Open'', asc ''0'')],
      p_actions =
        [asc ''Close 1 highest ROI blocker first'',
         asc ''Ship a visible operator-facing quality improvement'',
         asc ''Attach freshness + confidence labels to new metrics'']\<rparr>"
  by code_simp

lemma noPolymarketDocs_counts:
  "countTodoItems (pm_todo noPolymarketDocs) = \<lparr>t_total = 0, t_done = 0, t_open = 0\<rparr>"
  by (simp add: noPolymarketDocs_def countTodoItems_def)

lemma noPolymarketDocs_scored:
  "p_roiScore (polymarketProject noPolymarketDocs) = 64"
  "p_id (polymarketProject noPolymarketDocs) = asc ''polymarket''"
  "p_health (polymarketProject noPolymarketDocs) = asc ''stable''"
  by (simp_all add: polymarketProject_def noPolymarketDocs_counts)

lemma example_projects:
  "allProjects noPolymarketDocs [nightshiftDir, emptyDir] sh
     = [polymarketProject noPolymarketDocs, fst (scanProject nightshiftDir noShell),
        fst (scanProject emptyDir noShell)]"
  "allProjects noPolymarketDocs [nightshiftDir] sh
     = [polymarketProject noPolymarketDocs, fst (scanProject nightshiftDir noShell)]"
proof -
  have n: "\<not> pd_hasGit nightshiftDir" and e: "\<not> pd_hasGit emptyDir"
    by (simp_all add: nightshiftDir_def emptyDir_def)
  show "allProjects noPolymarketDocs [nightshiftDir, emptyDir] sh
     = [polymarketProject noPolymarketDocs, fst (scanProject nightshiftDir noShell),
        fst (scanProject emptyDir noShell)]"
    using scanProject_fst_noGit[OF n, of sh] scanProject_snd_noGit[OF n, of sh]
      scanProject_fst_noGit[OF e, of sh]
    by (simp add: allProjects_def Let_def split: prod.splits) (metis fst_conv snd_conv)
  show "allProjects noPolymarketDocs [nightshiftDir] sh
     = [polymarketProject noPolymarketDocs, fst (scanProject nightshiftDir noShell)]"
    using scanProject_fst_noGit[OF n, of sh]
    by (simp add: allProjects_def Let_def split: prod.splits) (metis fst_conv)
qed

lemma example_ranked:
  "ranked [polymarketProject noPolymarketDocs, fst (scanProject nightshiftDir noShell),
           fst (scanProject emptyDir noShell)]
     = [fst (scanProject nightshiftDir noShell), polymarketProject noPolymarketDocs,
        fst (scanProject emptyDir noShell)]"
  "ranked [polymarketProject noPolymarketDocs, fst (scanProject nightshiftDir noShell)]
     = [fst (scanProject nightshiftDir noShell), polymarketProject noPolymarketDocs]"
  by (simp_all add: ranked_def sortByRoi_def compareRoi_def sortKey_def noPolymarketDocs_scored
      nightshift_scored emptyDir_scored)

section \<open>Properties of the ranking\<close>

lemma sortKey_roiScore: "sortKey p = p_roiScore p"
  by (simp add: sortKey_def)

lemma insertRanked_count: "count_list (insertRanked x ys) y = count_list (x # ys) y"
  by (induction ys) auto

lemma insertRanked_length: "length (insertRanked x ys) = Suc (length ys)"
  by (induction ys) simp_all

lemma insertRanked_set: "set (insertRanked x ys) = insert x (set ys)"
  by (induction ys) auto

lemma insertRanked_sorted:
  "sorted_wrt (\<lambda>a b. p_roiScore b \<le> p_roiScore a) ys
   \<Longrightarrow> sorted_wrt (\<lambda>a b. p_roiScore b \<le> p_roiScore a) (insertRanked x ys)"
  by (induction ys) (auto simp: insertRanked_set compareRoi_def sortKey_roiScore)

lemma insertRanked_filter:
  "filter (\<lambda>p. p_roiScore p = k) (insertRanked x ys)
     = (if p_roiScore x = k then x # filter (\<lambda>p. p_roiScore p = k) ys
        else filter (\<lambda>p. p_roiScore p = k) ys)"
  by (induction ys) (auto simp: compareRoi_def sortKey_roiScore)

lemma sortByRoi_count: "count_list (sortByRoi ps) y = count_list ps y"
  by (induction ps) (simp_all add: sortByRoi_def insertRanked_count)

lemma sortByRoi_sorted: "sorted_wrt (\<lambda>a b. p_roiScore b \<le> p_roiScore a) (sortByRoi ps)"
  by (induction ps) (simp_all add: sortByRoi_def insertRanked_sorted)

lemma sortByRoi_stable:
  "filter (\<lambda>p. p_roiScore p = k) (sortByRoi ps) = filter (\<lambda>p. p_roiScore p = k) ps"
  by (induction ps) (simp_all add: sortByRoi_def insertRanked_filter)

lemma sortByRoi_length: "length (sortByRoi ps) = length ps"
  by (induction ps) (simp_all add: sortByRoi_def insertRanked_length)

lemma priorityFrom_length: "length (priorityFrom i ps) = length ps"
  by (induction ps arbitrary: i) simp_all

lemma priorityFrom_rank: "map m_rank (priorityFrom i ps) = map (\<lambda>k. int k + 1) [i..<i + length ps]"
  by (induction ps arbitrary: i) (simp_all add: upt_rec)

lemma priorityFrom_id: "map m_id (priorityFrom i ps) = map p_id ps"
  by (induction ps arbitrary: i) simp_all

lemma priorityFrom_roiScore: "map m_roiScore (priorityFrom i ps) = map p_roiScore ps"
  by (induction ps arbitrary: i) simp_all

lemma scanProjects_length: "length (fst (scanProjects dirs sh)) = length dirs"
proof (induction dirs arbitrary: sh)
  case Nil
  show ?case by simp
next
  case (Cons d dirs)
  obtain x sh1 where a: "scanProject d sh = (x, sh1)" by (cases "scanProject d sh")
  obtain xs sh2 where b: "scanProjects dirs sh1 = (xs, sh2)" by (cases "scanProjects dirs sh1")
  show ?case using Cons.IH[of sh1] by (simp add: a b)
qed

lemma generate_projects: "projects (generate clk gw pm dirs sh) = allProjects pm dirs sh"
  by (simp add: generate_def Let_def)

lemma generate_priorityModules:
  "priorityModules (generate clk gw pm dirs sh) = priorityFrom 0 (top (allProjects pm dirs sh))"
  by (simp add: generate_def Let_def)

section \<open>The clock and the project list\<close>

text \<open>
  A project is scored from the answers of the system to the commands, never from the
  list of commands issued so far, and from the clock only through the freshness hours.
\<close>

lemma safeExec_fst_answer:
  "answer sh' = answer sh \<Longrightarrow> fst (safeExec cmd cwd sh') = fst (safeExec cmd cwd sh)"
  by (simp add: safeExec_def)

lemma bucketCount_answer:
  "answer sh' = answer sh \<Longrightarrow> bucketCount sh' dir i = bucketCount sh dir i"
  using safeExec_fst_answer[of sh' sh "bucketCommand i" dir] by (simp add: bucketCount_def)

lemma getGit7DayActivity_answer:
  assumes "answer sh' = answer sh"
  shows "fst (getGit7DayActivity b dir sh') = fst (getGit7DayActivity b dir sh)"
    and "answer (snd (getGit7DayActivity b dir sh)) = answer sh"
proof -
  show "fst (getGit7DayActivity b dir sh') = fst (getGit7DayActivity b dir sh)"
  proof (cases b)
    case True
    then show ?thesis
      using bucketCount_answer[OF assms, of dir] safeExec_fst_answer[OF assms, of authorsCommand dir]
      by (simp add: getGit7DayActivity_marker)
  next
    case False
    then show ?thesis by (simp add: getGit7DayActivity_def)
  qed
  show "answer (snd (getGit7DayActivity b dir sh)) = answer sh"
    by (cases b) (simp_all add: getGit7DayActivity_marker, simp add: getGit7DayActivity_def)
qed

lemma scanProject_snd:
  "snd (scanProject d sh) = snd (getGit7DayActivity (pd_hasGit d) (pd_dir d) sh)"
  by (simp add: scanProject_def Let_def split: prod.splits)

lemma scanProject_answer: "answer (snd (scanProject d sh)) = answer sh"
  unfolding scanProject_snd by (rule getGit7DayActivity_answer(2)) simp

lemma scanProjects_single: "fst (scanProjects [d] sh) = [fst (scanProject d sh)]"
  by (simp add: Let_def split: prod.splits)

lemma scoreProject_clock:
  assumes "classifyFreshness (freshnessHoursOf t (s_latest snap))
             = classifyFreshness (freshnessHoursOf t' (s_latest snap))"
    and "roundedHours (freshnessHoursOf t (s_latest snap))
             = roundedHours (freshnessHoursOf t' (s_latest snap))"
  shows "scoreProject t name dir snap git todos = scoreProject t' name dir snap git todos"
  using assms by (simp add: scoreProject_def Let_def)

lemma scanProject_clock:
  assumes "sameFreshness t d" "answer sh' = answer sh"
  shows "fst (scanProject (d\<lparr>pd_now := t\<rparr>) sh') = fst (scanProject d sh)"
proof -
  have "fst (scanProject (d\<lparr>pd_now := t\<rparr>) sh')
          = scoreProject t (pd_name d) (pd_dir d) (latestMtimeRecursive (pd_entries d) 7000)
              (fst (getGit7DayActivity (pd_hasGit d) (pd_dir d) sh)) (countTodosInProject (pd_files d))"
    using getGit7DayActivity_answer(1)[OF assms(2), of "pd_hasGit d" "pd_dir d"]
    by (simp add: scanProject_fst)
  also have "\<dots> = scoreProject (pd_now d) (pd_name d) (pd_dir d) (latestMtimeRecursive (pd_entries d) 7000)
              (fst (getGit7DayActivity (pd_hasGit d) (pd_dir d) sh)) (countTodosInProject (pd_files d))"
    using assms(1) by (intro scoreProject_clock) (simp_all add: sameFreshness_def Let_def)
  finally show ?thesis by (simp add: scanProject_fst)
qed

lemma scanProjects_clock:
  "length ts = length dirs \<Longrightarrow> list_all2 sameFreshness ts dirs \<Longrightarrow> answer sh' = answer sh
   \<Longrightarrow> fst (scanProjects (atReadings ts dirs) sh') = fst (scanProjects dirs sh)"
proof (induction dirs arbitrary: ts sh sh')
  case Nil
  then show ?case by (simp add: atReadings_def)
next
  case (Cons d dirs)
  from Cons.prems(1) obtain t ts' where ts: "ts = t # ts'" by (cases ts) auto
  have sf: "sameFreshness t d" and rest: "list_all2 sameFreshness ts' dirs" and len: "length ts' = length dirs"
    using Cons.prems(1,2) ts by simp_all
  obtain x sh1 where a: "scanProject d sh = (x, sh1)" by (cases "scanProject d sh")
  obtain x' sh1' where a': "scanProject (d\<lparr>pd_now := t\<rparr>) sh' = (x', sh1')"
    by (cases "scanProject (d\<lparr>pd_now := t\<rparr>) sh'")
  have xx: "x' = x" using scanProject_clock[OF sf Cons.prems(3)] a a' by simp
  have ans: "answer sh1' = answer sh1"
    using scanProject_answer[of d sh] scanProject_answer[of "d\<lparr>pd_now := t\<rparr>" sh'] a a' Cons.prems(3)
    by simp
  have ih: "fst (scanProjects (atReadings ts' dirs) sh1') = fst (scanProjects dirs sh1)"
    using Cons.IH[OF len rest ans] .
  obtain xs sh2 where b: "scanProjects dirs sh1 = (xs, sh2)" by (cases "scanProjects dirs sh1")
  obtain xs' sh2' where b': "scanProjects (atReadings ts' dirs) sh1' = (xs', sh2')"
    by (cases "scanProjects (atReadings ts' dirs) sh1'")
  have at: "atReadings ts (d # dirs) = d\<lparr>pd_now := t\<rparr> # atReadings ts' dirs"
    by (simp add: atReadings_def ts)
  show ?case using ih by (simp add: at a a' b b' xx)
qed

lemma nightshift_latest:
  "s_latest (latestMtimeRecursive (pd_entries nightshiftDir) 7000) = 1700000000000"
  by code_simp

lemma six_hours:
  "classifyFreshness (freshnessHoursOf 1700021599999 1700000000000) = hot"
  "classifyFreshness (freshnessHoursOf 1700021600000 1700000000000) = warm"
  by code_simp+

lemma scanProject_health:
  "p_health (fst (scanProject d sh))
     = freshnessName (classifyFreshness (freshnessHoursOf (pd_now d)
         (s_latest (latestMtimeRecursive (pd_entries d) 7000))))"
  by (simp add: scanProject_fst scoreProject_def Let_def)

section \<open>Properties of every scanned project\<close>

lemma bucketCount_nonneg: "0 \<le> bucketCount sh dir i"
  by (simp add: bucketCount_def Let_def)

lemma commits7d_nonneg: "0 \<le> g_commits7d (fst (getGit7DayActivity b dir sh))"
proof (cases b)
  case True
  then show ?thesis
    by (simp add: getGit7DayActivity_marker bucketCount_nonneg)
next
  case False
  then show ?thesis by (simp add: getGit7DayActivity_def zeroActivity_def)
qed

lemma roiScore_exactRoiScore:
  "0 \<le> p \<Longrightarrow> p \<le> 100 \<Longrightarrow> 0 \<le> c \<Longrightarrow> roiScore p c f = exactRoiScore p c f"
  using roiScore_exact[of p c f] by (simp add: exactRoiScore_def)

lemma scanProject_progress_range:
  "34 \<le> p_progress (fst (scanProject d sh))" "p_progress (fst (scanProject d sh)) \<le> 100"
proof -
  show "34 \<le> p_progress (fst (scanProject d sh))"
    unfolding scanProject_fst scoreProject_progress by (rule progress_lower)
  show "p_progress (fst (scanProject d sh)) \<le> 100"
    unfolding scanProject_fst scoreProject_progress
    using countTodosInProject_ordered[of "pd_files d"] by (intro progress_of_todos_upper) simp_all
qed

lemma scanProject_roiScore:
  "p_roiScore (fst (scanProject d sh))
     = roiScore (p_progress (fst (scanProject d sh)))
         (g_commits7d (fst (getGit7DayActivity (pd_hasGit d) (pd_dir d) sh)))
         (classifyFreshness (freshnessHoursOf (pd_now d)
            (s_latest (latestMtimeRecursive (pd_entries d) 7000))))"
  unfolding scanProject_fst by (rule scoreProject_roiScore)

section \<open>Checklists and projects without a modification time, evaluated\<close>



lemma three_of_four:
  "\<not> halfway \<lparr>t_total = 4, t_done = 3, t_open = 1\<rparr>"
  "exactCompletion \<lparr>t_total = 4, t_done = 3, t_open = 1\<rparr> = Some 75"
  by code_simp+

lemma three_of_four_rounded: "completionOf \<lparr>t_total = 4, t_done = 3, t_open = 1\<rparr> = 75"
  by code_simp



lemma gitOnly_probes:
  "latestMtimeRecursive (pd_entries gitOnlyDir) 7000 = \<lparr>s_latest = 0, s_count = 0, s_capped = False\<rparr>"
  "countTodosInProject (pd_files gitOnlyDir) = \<lparr>t_total = 0, t_done = 0, t_open = 0\<rparr>"
  "fst (getGit7DayActivity (pd_hasGit gitOnlyDir) (pd_dir gitOnlyDir) busyShell)
     = \<lparr>g_commits7d = 7, g_trend = [1, 1, 1, 1, 1, 1, 1], g_contributors7d = 1, g_confidence = high\<rparr>"
  by code_simp+

lemma roiScore_56_7: "roiScore 56 7 unknown = 54"
  by code_simp

lemma gitOnly_scored:
  "p_health (fst (scanProject gitOnlyDir busyShell)) = asc ''unknown''"
  "p_progress (fst (scanProject gitOnlyDir busyShell)) = 56"
  "p_roiScore (fst (scanProject gitOnlyDir busyShell)) = 54"
proof -
  show "p_health (fst (scanProject gitOnlyDir busyShell)) = asc ''unknown''"
    by (simp add: scanProject_health gitOnly_probes classifyFreshness_unknown freshnessName_def)
  show p: "p_progress (fst (scanProject gitOnlyDir busyShell)) = 56"
    by (simp add: scanProject_fst scoreProject_progress gitOnly_probes classifyFreshness_unknown
        completionFromTodos_def progress_def)
  show "p_roiScore (fst (scanProject gitOnlyDir busyShell)) = 54"
    by (simp add: scanProject_roiScore p gitOnly_probes classifyFreshness_unknown roiScore_56_7)
qed

lemma epoch_probes:
  "latestMtimeRecursive (pd_entries epochDir) 7000 = \<lparr>s_latest = 0, s_count = 1, s_capped = False\<rparr>"
  "countTodosInProject (pd_files epochDir) = \<lparr>t_total = 4, t_done = 3, t_open = 1\<rparr>"
  "fst (getGit7DayActivity (pd_hasGit epochDir) (pd_dir epochDir) noShell) = zeroActivity"
  by code_simp+

lemma roiScore_75_0: "roiScore 75 0 unknown = 43"
  by code_simp

lemma epoch_scored:
  "p_health (fst (scanProject epochDir noShell)) = asc ''unknown''"
  "p_progress (fst (scanProject epochDir noShell)) = 75"
  "p_roiScore (fst (scanProject epochDir noShell)) = 43"
proof -
  show "p_health (fst (scanProject epochDir noShell)) = asc ''unknown''"
    by (simp add: scanProject_health epoch_probes classifyFreshness_unknown freshnessName_def)
  show p: "p_progress (fst (scanProject epochDir noShell)) = 75"
    by (simp add: scanProject_fst scoreProject_progress epoch_probes classifyFreshness_unknown
        completionFromTodos_def three_of_four_rounded progress_def zeroActivity_def)
  show "p_roiScore (fst (scanProject epochDir noShell)) = 43"
    by (simp add: scanProject_roiScore p epoch_probes classifyFreshness_unknown roiScore_75_0
        zeroActivity_def)
qed

chapter \<open>Properties claimed by the specification\<close>

section \<open>Scoring\<close>

text \<open>
  \<^bold>\<open>C1.\<close>  The ROI score the code computes from a progress value, a commit count and a
  freshness bucket is the clamp to \<open>10..99\<close> of the rounded sum
  \<open>progress * 0.55 + commits7d * 3 + freshnessBonus\<close>, the bonus being 15 for hot, 7 for warm
  and 2 otherwise; it lies between 10 and 99 for all inputs, however large the commit
  count.  The formula is met in the arithmetic of the script for all inputs, and in exact
  arithmetic for every progress from 0 to 100 and every commit count that is not negative,
  hence for every scanned project.
\<close>

theorem roiScore_clamped:
  "roiScore prog commits7d f = specRoiScore prog commits7d f
   \<and> (0 \<le> prog \<and> prog \<le> 100 \<and> 0 \<le> commits7d
        \<longrightarrow> roiScore prog commits7d f = exactRoiScore prog commits7d f)
   \<and> 10 \<le> roiScore prog commits7d f \<and> roiScore prog commits7d f \<le> 99
   \<and> p_roiScore (scoreProject now name dir snap git todos)
       = specRoiScore (p_progress (scoreProject now name dir snap git todos)) (g_commits7d git)
           (classifyFreshness (freshnessHoursOf now (s_latest snap)))
   \<and> p_roiScore (fst (scanProject d sh))
       = exactRoiScore (p_progress (fst (scanProject d sh)))
           (g_commits7d (fst (getGit7DayActivity (pd_hasGit d) (pd_dir d) sh)))
           (classifyFreshness (freshnessHoursOf (pd_now d)
              (s_latest (latestMtimeRecursive (pd_entries d) 7000))))
   \<and> 10 \<le> p_roiScore (fst (scanProject d sh)) \<and> p_roiScore (fst (scanProject d sh)) \<le> 99"
proof -
  have a: "roiScore prog commits7d f = specRoiScore prog commits7d f" by (rule roiScore_spec)
  have b: "0 \<le> prog \<and> prog \<le> 100 \<and> 0 \<le> commits7d
        \<longrightarrow> roiScore prog commits7d f = exactRoiScore prog commits7d f"
    using roiScore_exactRoiScore by blast
  have c: "10 \<le> roiScore prog commits7d f \<and> roiScore prog commits7d f \<le> 99"
    by (rule roiScore_range)
  have d: "p_roiScore (scoreProject now name dir snap git todos)
       = specRoiScore (p_progress (scoreProject now name dir snap git todos)) (g_commits7d git)
           (classifyFreshness (freshnessHoursOf now (s_latest snap)))"
    by (simp only: scoreProject_roiScore roiScore_spec)
  have e: "p_roiScore (fst (scanProject d sh))
       = exactRoiScore (p_progress (fst (scanProject d sh)))
           (g_commits7d (fst (getGit7DayActivity (pd_hasGit d) (pd_dir d) sh)))
           (classifyFreshness (freshnessHoursOf (pd_now d)
              (s_latest (latestMtimeRecursive (pd_entries d) 7000))))"
    unfolding scanProject_roiScore
    using scanProject_progress_range[of d sh] commits7d_nonneg
    by (intro roiScore_exactRoiScore) simp_all
  have f: "10 \<le> p_roiScore (fst (scanProject d sh)) \<and> p_roiScore (fst (scanProject d sh)) \<le> 99"
    unfolding scanProject_roiScore by (rule roiScore_range)
  show ?thesis using a b c d e f by blast
qed

theorem roiScore_clamped_witness:
  "(0::int) \<le> 100 \<and> (100::int) \<le> 100 \<and> (0::int) \<le> 1000
   \<and> roiScore 100 1000 hot = 99 \<and> specRoiScore 100 1000 hot = 99
   \<and> exactRoiScore 100 1000 hot = 99
   \<and> p_roiScore (fst (scanProject nightshiftDir noShell)) = 70"
proof -
  have a: "roiScore 100 1000 hot = 99" by code_simp
  have b: "p_roiScore (fst (scanProject nightshiftDir noShell)) = 70"
    by (simp add: nightshift_scored)
  show ?thesis
    using roiScore_clamped[of 100 1000 hot 0 "[]" "[]" "\<lparr>s_latest = 0, s_count = 0, s_capped = False\<rparr>"
        zeroActivity "countTodoItems []" nightshiftDir noShell] a b
    by simp
qed





text \<open>
  \<^bold>\<open>C9.\<close>  A project whose scan observed no modification time has the freshness
  \<open>unknown\<close>.  For that freshness the code uses the progress floor 34 and the ROI bonus 2,
  the values of \<open>cold\<close>: the progress of such a project is the maximum of its checklist
  completion (0 when there is no checklist), 34 and \<open>min(85, commits7d * 8)\<close>, and its ROI
  score is the clamp to \<open>10..99\<close> of the rounded sum \<open>progress * 0.55 + commits7d * 3 + 2\<close>,
  for the scoring callback on any probe results and for every scanned directory.  The
  progress of every scanned project lies between 34 and 100, whatever its freshness,
  since the counts of its checklist come from the parser.
\<close>

theorem unknown_scored_as_cold:
  "classifyFreshness (freshnessHoursOf now 0) = unknown
   \<and> progress completion unknown c = max (max (orZero completion) 34) (min 85 (c * 8))
   \<and> progress completion unknown c = progress completion cold c
   \<and> roiScore p c unknown
       = clamp 10 99 (Math_round
           (js_add (js_add (js_mul (of_int p) (fl64 (55 / 100))) (of_int (c * 3))) 2))
   \<and> roiScore p c unknown = roiScore p c cold
   \<and> 34 \<le> p_progress (fst (scanProject d sh)) \<and> p_progress (fst (scanProject d sh)) \<le> 100
   \<and> (s_latest snap = 0
        \<longrightarrow> p_health (scoreProject now name dir snap git todos) = asc ''unknown''
            \<and> p_progress (scoreProject now name dir snap git todos)
                = max (max (orZero (completionFromTodos todos)) 34) (min 85 (g_commits7d git * 8))
            \<and> p_roiScore (scoreProject now name dir snap git todos)
                = clamp 10 99 (Math_round
                    (js_add (js_add (js_mul
                       (of_int (p_progress (scoreProject now name dir snap git todos)))
                       (fl64 (55 / 100))) (of_int (g_commits7d git * 3))) 2)))
   \<and> (s_latest (latestMtimeRecursive (pd_entries d) 7000) = 0
        \<longrightarrow> p_health (fst (scanProject d sh)) = asc ''unknown''
            \<and> p_progress (fst (scanProject d sh))
                = max (max (orZero (completionFromTodos (countTodosInProject (pd_files d)))) 34)
                      (min 85 (g_commits7d (fst (getGit7DayActivity (pd_hasGit d) (pd_dir d) sh)) * 8))
            \<and> (t_total (countTodosInProject (pd_files d)) < 2 ^ 32
                  \<and> \<not> halfway (countTodosInProject (pd_files d))
                \<longrightarrow> p_progress (fst (scanProject d sh))
                      = max (max (orZero (exactCompletion (countTodosInProject (pd_files d)))) 34)
                            (min 85 (g_commits7d (fst (getGit7DayActivity (pd_hasGit d) (pd_dir d) sh)) * 8)))
            \<and> p_roiScore (fst (scanProject d sh))
                = clamp 10 99
                    \<lfloor>of_int (p_progress (fst (scanProject d sh))) * (55 / 100)
                       + of_int (g_commits7d (fst (getGit7DayActivity (pd_hasGit d) (pd_dir d) sh))) * 3
                       + 2 + (1 / 2 :: rat)\<rfloor>)"
proof -
  let ?q = "scoreProject now name dir snap git todos"
  let ?g = "g_commits7d (fst (getGit7DayActivity (pd_hasGit d) (pd_dir d) sh))"
  let ?t = "countTodosInProject (pd_files d)"
  have a: "classifyFreshness (freshnessHoursOf now 0) = unknown"
    by (rule classifyFreshness_unknown)
  have b: "progress completion unknown c = max (max (orZero completion) 34) (min 85 (c * 8))"
    by (rule progress_unknown)
  have b': "progress completion unknown c = progress completion cold c"
    by (simp add: progress_def)
  have e: "roiScore p c unknown
       = clamp 10 99 (Math_round
           (js_add (js_add (js_mul (of_int p) (fl64 (55 / 100))) (of_int (c * 3))) 2))"
    by (simp add: roiScore_spec specRoiScore_def)
  have e': "roiScore p c unknown = roiScore p c cold"
    by (simp add: roiScore_def)
  have lo: "34 \<le> p_progress (fst (scanProject d sh))"
    and hi: "p_progress (fst (scanProject d sh)) \<le> 100"
    by (rule scanProject_progress_range)+
  have s: "p_health ?q = asc ''unknown''
        \<and> p_progress ?q = max (max (orZero (completionFromTodos todos)) 34) (min 85 (g_commits7d git * 8))
        \<and> p_roiScore ?q
            = clamp 10 99 (Math_round
                (js_add (js_add (js_mul (of_int (p_progress ?q)) (fl64 (55 / 100)))
                   (of_int (g_commits7d git * 3))) 2))"
    if z: "s_latest snap = 0"
  proof -
    have f: "classifyFreshness (freshnessHoursOf now (s_latest snap)) = unknown"
      unfolding z by (rule classifyFreshness_unknown)
    have 1: "p_health ?q = asc ''unknown''"
      by (simp add: scoreProject_def Let_def f freshnessName_def)
    have 2: "p_progress ?q
               = max (max (orZero (completionFromTodos todos)) 34) (min 85 (g_commits7d git * 8))"
      unfolding scoreProject_progress f by (rule progress_unknown)
    have 3: "p_roiScore ?q
            = clamp 10 99 (Math_round
                (js_add (js_add (js_mul (of_int (p_progress ?q)) (fl64 (55 / 100)))
                   (of_int (g_commits7d git * 3))) 2))"
      unfolding scoreProject_roiScore f by (simp add: roiScore_spec specRoiScore_def)
    show ?thesis using 1 2 3 by blast
  qed
  have t: "p_health (fst (scanProject d sh)) = asc ''unknown''
        \<and> p_progress (fst (scanProject d sh))
            = max (max (orZero (completionFromTodos ?t)) 34) (min 85 (?g * 8))
        \<and> (t_total ?t < 2 ^ 32 \<and> \<not> halfway ?t
            \<longrightarrow> p_progress (fst (scanProject d sh))
                  = max (max (orZero (exactCompletion ?t)) 34) (min 85 (?g * 8)))
        \<and> p_roiScore (fst (scanProject d sh))
            = clamp 10 99
                \<lfloor>of_int (p_progress (fst (scanProject d sh))) * (55 / 100) + of_int ?g * 3
                   + 2 + (1 / 2 :: rat)\<rfloor>"
    if z: "s_latest (latestMtimeRecursive (pd_entries d) 7000) = 0"
  proof -
    have f: "classifyFreshness (freshnessHoursOf (pd_now d)
               (s_latest (latestMtimeRecursive (pd_entries d) 7000))) = unknown"
      unfolding z by (rule classifyFreshness_unknown)
    have 1: "p_health (fst (scanProject d sh)) = asc ''unknown''"
      unfolding scanProject_health f by (simp add: freshnessName_def)
    have 2: "p_progress (fst (scanProject d sh))
            = max (max (orZero (completionFromTodos ?t)) 34) (min 85 (?g * 8))"
      unfolding scanProject_fst scoreProject_progress f by (rule progress_unknown)
    have 3: "p_progress (fst (scanProject d sh))
            = max (max (orZero (exactCompletion ?t)) 34) (min 85 (?g * 8))"
      if "t_total ?t < 2 ^ 32" "\<not> halfway ?t"
      using completionFromTodos_exact[of ?t] countTodosInProject_ordered[of "pd_files d"] that 2
      by simp
    have "p_roiScore (fst (scanProject d sh))
            = exactRoiScore (p_progress (fst (scanProject d sh))) ?g unknown"
      unfolding scanProject_roiScore f
      using scanProject_progress_range[of d sh] commits7d_nonneg
      by (intro roiScore_exactRoiScore) simp_all
    then have 4: "p_roiScore (fst (scanProject d sh))
            = clamp 10 99
                \<lfloor>of_int (p_progress (fst (scanProject d sh))) * (55 / 100) + of_int ?g * 3
                   + 2 + (1 / 2 :: rat)\<rfloor>"
      by (simp add: exactRoiScore_def)
    show ?thesis using 1 2 3 4 by blast
  qed
  show ?thesis using a b b' e e' lo hi s t by blast
qed

theorem unknown_scored_as_cold_witness:
  "s_latest (latestMtimeRecursive (pd_entries gitOnlyDir) 7000) = 0
   \<and> g_commits7d (fst (getGit7DayActivity (pd_hasGit gitOnlyDir) (pd_dir gitOnlyDir) busyShell)) = 7
   \<and> p_health (fst (scanProject gitOnlyDir busyShell)) = asc ''unknown''
   \<and> p_progress (fst (scanProject gitOnlyDir busyShell)) = 56
   \<and> p_roiScore (fst (scanProject gitOnlyDir busyShell)) = 54
   \<and> s_latest (latestMtimeRecursive (pd_entries epochDir) 7000) = 0
   \<and> t_total (countTodosInProject (pd_files epochDir)) < 2 ^ 32
   \<and> \<not> halfway (countTodosInProject (pd_files epochDir))
   \<and> exactCompletion (countTodosInProject (pd_files epochDir)) = Some 75
   \<and> p_health (fst (scanProject epochDir noShell)) = asc ''unknown''
   \<and> p_progress (fst (scanProject epochDir noShell)) = 75
   \<and> p_roiScore (fst (scanProject epochDir noShell)) = 43"
proof -
  have z: "s_latest (latestMtimeRecursive (pd_entries gitOnlyDir) 7000) = 0"
    "s_latest (latestMtimeRecursive (pd_entries epochDir) 7000) = 0"
    by (simp_all add: gitOnly_probes epoch_probes)
  have g: "g_commits7d (fst (getGit7DayActivity (pd_hasGit gitOnlyDir) (pd_dir gitOnlyDir) busyShell)) = 7"
    by (simp add: gitOnly_probes)
  have c: "t_total (countTodosInProject (pd_files epochDir)) < 2 ^ 32"
    "\<not> halfway (countTodosInProject (pd_files epochDir))"
    "exactCompletion (countTodosInProject (pd_files epochDir)) = Some 75"
    by (simp_all add: epoch_probes three_of_four)
  show ?thesis
    using unknown_scored_as_cold[of 1700003600000 None 7 56 gitOnlyDir busyShell
        "latestMtimeRecursive (pd_entries gitOnlyDir) 7000" "pd_name gitOnlyDir" "pd_dir gitOnlyDir"
        "fst (getGit7DayActivity (pd_hasGit gitOnlyDir) (pd_dir gitOnlyDir) busyShell)"
        "countTodosInProject (pd_files gitOnlyDir)"]
      unknown_scored_as_cold[of 1700003600000 "Some 75" 0 75 epochDir noShell
        "latestMtimeRecursive (pd_entries epochDir) 7000" "pd_name epochDir" "pd_dir epochDir"
        zeroActivity "countTodosInProject (pd_files epochDir)"]
      z g c gitOnly_scored epoch_scored
    by simp
qed

text \<open>
  \<^bold>\<open>C10.\<close>  The fixed Polymarket Bot project is the head of the project list and takes
  nothing from the scoring engine: whatever the checklist text, its confidence is
  \<open>high\<close>, its ROI score is 78 when the checklist has open items and 64 otherwise (so
  within \<open>10..99\<close>), and with an empty checklist, where the completion of a scanned project
  would be null, its progress is 0.
\<close>

theorem polymarket_fixed_scores:
  "allProjects pm dirs sh ! 0 = polymarketProject pm
   \<and> p_confidence (polymarketProject pm) = asc ''high''
   \<and> p_roiScore (polymarketProject pm) = (if t_open (countTodoItems (pm_todo pm)) > 0 then 78 else 64)
   \<and> 10 \<le> p_roiScore (polymarketProject pm) \<and> p_roiScore (polymarketProject pm) \<le> 99
   \<and> (t_total (countTodoItems (pm_todo pm)) = 0
        \<longrightarrow> completionFromTodos (countTodoItems (pm_todo pm)) = None
            \<and> p_progress (polymarketProject pm) = 0)"
  by (simp add: allProjects_def polymarketProject_def Let_def completionFromTodos_def)

theorem polymarket_fixed_scores_witness:
  "t_total (countTodoItems (pm_todo noPolymarketDocs)) = 0
   \<and> p_progress (polymarketProject noPolymarketDocs) = 0
   \<and> p_roiScore (polymarketProject noPolymarketDocs) = 64
   \<and> p_roiScore (polymarketProject (noPolymarketDocs\<lparr>pm_todo := asc ''- [ ] hedge''\<rparr>)) = 78"
proof -
  have a: "t_total (countTodoItems (pm_todo noPolymarketDocs)) = 0"
    and a': "t_open (countTodoItems (pm_todo noPolymarketDocs)) = 0"
    by (simp_all add: noPolymarketDocs_counts)
  have b: "t_open (countTodoItems (pm_todo (noPolymarketDocs\<lparr>pm_todo := asc ''- [ ] hedge''\<rparr>))) = 1"
    by code_simp
  show ?thesis
    using polymarket_fixed_scores[of noPolymarketDocs "[]" noShell]
      polymarket_fixed_scores[of "noPolymarketDocs\<lparr>pm_todo := asc ''- [ ] hedge''\<rparr>" "[]" noShell] a a' b
    by simp
qed

section \<open>Activity probe\<close>

text \<open>
  \<^bold>\<open>C7.\<close>  In a directory that holds the repository marker the probe issues the seven day
  bucket queries, oldest bucket first, bucket \<open>i\<close> being scoped from \<open>i + 1\<close> days ago to
  \<open>i\<close> days ago, and then the author query; the trend holds the seven bucket counts in
  that order, a bucket whose command fails counts 0 and the remaining queries still run,
  \<open>commits7d\<close> is the sum of the trend and the confidence is \<open>high\<close>.
\<close>

theorem git_probe_with_marker:
  "issued (snd (getGit7DayActivity True dir sh))
     = issued sh @ map (\<lambda>i. (dir, bucketCommand i)) [6, 5, 4, 3, 2, 1, 0] @ [(dir, authorsCommand)]
   \<and> bucketCommand i
       = asc ''git log --since='' @ dquote @ String (int i + 1) @ asc '' days ago'' @ dquote
           @ asc '' --until='' @ dquote @ String (int i) @ asc '' days ago'' @ dquote
           @ asc '' --pretty=format:%H''
   \<and> g_trend (fst (getGit7DayActivity True dir sh)) = map (bucketCount sh dir) [6, 5, 4, 3, 2, 1, 0]
   \<and> ((\<exists>so se. answer sh dir (bucketCommand i) = Threw so se) \<longrightarrow> bucketCount sh dir i = 0)
   \<and> g_commits7d (fst (getGit7DayActivity True dir sh))
       = sum_list (g_trend (fst (getGit7DayActivity True dir sh)))
   \<and> g_confidence (fst (getGit7DayActivity True dir sh)) = high"
  using bucketCount_Threw[of sh dir i]
  by (auto simp add: getGit7DayActivity_marker bucketCommand_def Let_def)

theorem git_probe_with_marker_witness:
  "(\<exists>so se. answer gitShell (asc ''/ws/overnight'') (bucketCommand 6) = Threw so se)
   \<and> g_trend (fst (getGit7DayActivity True (asc ''/ws/overnight'') gitShell)) = [0, 0, 0, 2, 0, 1, 0]
   \<and> g_commits7d (fst (getGit7DayActivity True (asc ''/ws/overnight'') gitShell)) = 3
   \<and> bucketCommand 6 = asc ''git log --since='' @ dquote @ asc ''7 days ago'' @ dquote
           @ asc '' --until='' @ dquote @ asc ''6 days ago'' @ dquote @ asc '' --pretty=format:%H''"
proof -
  have a: "answer gitShell (asc ''/ws/overnight'') (bucketCommand 6)
             = Threw (Some []) (Some (asc ''fatal: bad revision''))"
    by (simp add: gitShell_def)
  have b: "map (bucketCount gitShell (asc ''/ws/overnight'')) [6, 5, 4, 3, 2, 1, 0] = [0, 0, 0, 2, 0, 1, 0]"
    by code_simp
  have c: "String 7 = asc ''7''" "String 6 = asc ''6''" by code_simp+
  show ?thesis
    using git_probe_with_marker[of "asc ''/ws/overnight''" gitShell 6] a b c by (simp add: asc_def)
qed

text \<open>
  \<^bold>\<open>C8.\<close>  In a directory without the repository marker the probe returns the
  zero-activity result, with seven zero buckets and the confidence \<open>low\<close>, and issues no
  command.
\<close>

theorem git_probe_without_marker:
  "getGit7DayActivity False dir sh
     = (\<lparr>g_commits7d = 0, g_trend = [0, 0, 0, 0, 0, 0, 0], g_contributors7d = 0, g_confidence = low\<rparr>,
        sh)
   \<and> issued (snd (getGit7DayActivity False dir sh)) = issued sh"
  by (simp add: getGit7DayActivity_def zeroActivity_def)

theorem git_probe_without_marker_witness:
  "fst (getGit7DayActivity False (asc ''/ws/overnight'') gitShell)
     = \<lparr>g_commits7d = 0, g_trend = [0, 0, 0, 0, 0, 0, 0], g_contributors7d = 0, g_confidence = low\<rparr>
   \<and> issued (snd (getGit7DayActivity False (asc ''/ws/overnight'') gitShell)) = []"
  using git_probe_without_marker[of "asc ''/ws/overnight''" gitShell] by (simp add: gitShell_def)

section \<open>Checklist parser\<close>

text \<open>
  \<^bold>\<open>C6.\<close>  For every text the checklist parser returns counts that are not negative, with
  \<open>done \<le> total\<close> and \<open>open = total - done\<close>; for the empty text all three are 0.
\<close>

theorem countTodoItems_counts:
  "0 \<le> t_total (countTodoItems md) \<and> 0 \<le> t_done (countTodoItems md)
   \<and> 0 \<le> t_open (countTodoItems md)
   \<and> t_done (countTodoItems md) \<le> t_total (countTodoItems md)
   \<and> t_open (countTodoItems md) = t_total (countTodoItems md) - t_done (countTodoItems md)
   \<and> t_open (countTodoItems md) = max 0 (t_total (countTodoItems md) - t_done (countTodoItems md))
   \<and> countTodoItems [] = \<lparr>t_total = 0, t_done = 0, t_open = 0\<rparr>"
  using done_le_total[of md] by (simp add: countTodoItems_def Let_def)

theorem countTodoItems_counts_witness:
  "countTodoItems (asc ''- [x] a'' @ [0x0A] @ asc ''- [ ] b'' @ [0x0A] @ asc ''- [x] c'')
     = \<lparr>t_total = 3, t_done = 2, t_open = 1\<rparr>
   \<and> t_open (countTodoItems (asc ''- [x] a'' @ [0x0A] @ asc ''- [ ] b'' @ [0x0A] @ asc ''- [x] c''))
       = t_total (countTodoItems (asc ''- [x] a'' @ [0x0A] @ asc ''- [ ] b'' @ [0x0A] @ asc ''- [x] c''))
         - t_done (countTodoItems (asc ''- [x] a'' @ [0x0A] @ asc ''- [ ] b'' @ [0x0A] @ asc ''- [x] c''))"
proof -
  have a: "countTodoItems (asc ''- [x] a'' @ [0x0A] @ asc ''- [ ] b'' @ [0x0A] @ asc ''- [x] c'')
     = \<lparr>t_total = 3, t_done = 2, t_open = 1\<rparr>"
    by code_simp
  show ?thesis
    using countTodoItems_counts[of "asc ''- [x] a'' @ [0x0A] @ asc ''- [ ] b'' @ [0x0A] @ asc ''- [x] c''"] a
    by simp
qed

section \<open>Filesystem scanner\<close>

text \<open>
  \<^bold>\<open>C5.\<close>  Let the cap be at least 1 and count the entries of the tree that the walk can
  count: those not passed over by name, not below a directory that is passed over or
  cannot be read, and whose \<^verbatim>\<open>statSync\<close> succeeds.  If that number is at least the cap, the
  scanner returns \<open>capped = true\<close> with a visited count equal to the cap, and it returns on
  the entry that reaches the cap, whatever follows it in the listing.  If the number is
  below the cap, the scanner returns \<open>capped = false\<close> and that number.  This holds for the
  scanner of either revision.
\<close>

theorem scanner_cap:
  assumes "1 \<le> cap"
  shows "(cap \<le> int (visitableIn skipNames dir)
          \<longrightarrow> s_capped (latestMtimeRecursive dir cap) \<and> s_count (latestMtimeRecursive dir cap) = cap)
     \<and> (int (visitableIn skipNames dir) < cap
          \<longrightarrow> \<not> s_capped (latestMtimeRecursive dir cap)
              \<and> s_count (latestMtimeRecursive dir cap) = int (visitableIn skipNames dir))
     \<and> (cap \<le> int (visitableIn skipNamesV1 dir)
          \<longrightarrow> s_capped (latestMtimeRecursiveV1 dir cap) \<and> s_count (latestMtimeRecursiveV1 dir cap) = cap)
     \<and> (int (visitableIn skipNamesV1 dir) < cap
          \<longrightarrow> \<not> s_capped (latestMtimeRecursiveV1 dir cap)
              \<and> s_count (latestMtimeRecursiveV1 dir cap) = int (visitableIn skipNamesV1 dir))
     \<and> (scanEntries skip cap es latest count stack = Inl r
          \<longrightarrow> s_capped r \<and> scanEntries skip cap (es @ rest) latest count stack = Inl r
              \<and> walk skip cap latest count (Some (es @ rest) # stack) = r)"
proof -
  have a: "cap \<le> int (visitableIn skipNames dir)
          \<longrightarrow> s_capped (latestMtimeRecursive dir cap) \<and> s_count (latestMtimeRecursive dir cap) = cap"
    and b: "int (visitableIn skipNames dir) < cap
          \<longrightarrow> \<not> s_capped (latestMtimeRecursive dir cap)
              \<and> s_count (latestMtimeRecursive dir cap) = int (visitableIn skipNames dir)"
    using walk_root[OF assms, of skipNames dir] by (simp_all add: latestMtimeRecursive_def)
  have c: "cap \<le> int (visitableIn skipNamesV1 dir)
          \<longrightarrow> s_capped (latestMtimeRecursiveV1 dir cap) \<and> s_count (latestMtimeRecursiveV1 dir cap) = cap"
    and d: "int (visitableIn skipNamesV1 dir) < cap
          \<longrightarrow> \<not> s_capped (latestMtimeRecursiveV1 dir cap)
              \<and> s_count (latestMtimeRecursiveV1 dir cap) = int (visitableIn skipNamesV1 dir)"
    using walk_root[OF assms, of skipNamesV1 dir] by (simp_all add: latestMtimeRecursiveV1_def)
  have e: "s_capped r \<and> scanEntries skip cap (es @ rest) latest count stack = Inl r
              \<and> walk skip cap latest count (Some (es @ rest) # stack) = r"
    if r: "scanEntries skip cap es latest count stack = Inl r"
  proof -
    have "s_capped r" using r
      by (induction es arbitrary: latest count stack) (auto simp: Let_def split: if_splits)
    moreover have "scanEntries skip cap (es @ rest) latest count stack = Inl r"
      using r by (rule scanEntries_stops)
    ultimately show ?thesis by simp
  qed
  show ?thesis using a b c d e by blast
qed

theorem scanner_cap_witness:
  "(1::int) \<le> 5000
   \<and> (5000::int) \<le> int (visitableIn skipNamesV1 (Some (flatDir 6000)))
   \<and> s_capped (latestMtimeRecursiveV1 (Some (flatDir 6000)) 5000)
   \<and> s_count (latestMtimeRecursiveV1 (Some (flatDir 6000)) 5000) = 5000
   \<and> int (visitableIn skipNames (pd_entries nightshiftDir)) < 7000
   \<and> \<not> s_capped (latestMtimeRecursive (pd_entries nightshiftDir) 7000)
   \<and> s_count (latestMtimeRecursive (pd_entries nightshiftDir) 7000) = 3
   \<and> scanEntries skipNames 1 [File (asc ''a'') (Some 5)] 0 0 []
       = Inl \<lparr>s_latest = 5, s_count = 1, s_capped = True\<rparr>
   \<and> walk skipNames 1 0 0 [Some ([File (asc ''a'') (Some 5)] @ [File (asc ''b'') (Some 9)])]
       = \<lparr>s_latest = 5, s_count = 1, s_capped = True\<rparr>"
proof -
  have h: "(1::int) \<le> 5000" "(1::int) \<le> 7000" "(1::int) \<le> 1" by simp_all
  have v: "visitableIn skipNames (pd_entries nightshiftDir) = 3" by code_simp
  have s: "scanEntries skipNames 1 [File (asc ''a'') (Some 5)] 0 0 []
             = Inl \<lparr>s_latest = 5, s_count = 1, s_capped = True\<rparr>"
    by (simp add: skipNames_def asc_def)
  show ?thesis
    using scanner_cap[OF h(1), of "Some (flatDir 6000)"]
      scanner_cap[OF h(2), of "pd_entries nightshiftDir"]
      scanner_cap[OF h(3), of "Some []" skipNames "[File (asc ''a'') (Some 5)]" 0 0 "[]"
        "\<lparr>s_latest = 5, s_count = 1, s_capped = True\<rparr>" "[File (asc ''b'') (Some 9)]"]
      flatDir_visitable(2)[of 6000] v s
    by simp
qed

text \<open>
  A directory of exactly 5000 plain files, scanned with the cap 5000: the tree is not
  over the cap, and the scanner of either revision reports it as capped.  And a directory
  whose tree holds 6001 entries, all but one of them below \<^verbatim>\<open>node_modules\<close>: the tree is over
  the cap 5000, and the scanner reports it as not capped, with nothing visited.
\<close>

theorem scanner_cap_counterexample:
  "length (flatDir 5000) = 5000
   \<and> s_capped (latestMtimeRecursiveV1 (Some (flatDir 5000)) 5000)
   \<and> s_capped (latestMtimeRecursive (Some (flatDir 5000)) 5000)
   \<and> length (flatDir 6000) = 6000
   \<and> latestMtimeRecursive (Some vendoredDir) 5000 = \<lparr>s_latest = 0, s_count = 0, s_capped = False\<rparr>
   \<and> latestMtimeRecursiveV1 (Some vendoredDir) 5000 = \<lparr>s_latest = 0, s_count = 0, s_capped = False\<rparr>"
proof -
  have a: "s_capped (latestMtimeRecursiveV1 (Some (flatDir 5000)) 5000)"
    and b: "s_capped (latestMtimeRecursive (Some (flatDir 5000)) 5000)"
    using walk_root[of 5000 skipNamesV1 "Some (flatDir 5000)"]
      walk_root[of 5000 skipNames "Some (flatDir 5000)"]
    by (simp_all add: flatDir_visitable latestMtimeRecursive_def latestMtimeRecursiveV1_def)
  have c: "latestMtimeRecursive (Some vendoredDir) 5000 = \<lparr>s_latest = 0, s_count = 0, s_capped = False\<rparr>"
    and d: "latestMtimeRecursiveV1 (Some vendoredDir) 5000 = \<lparr>s_latest = 0, s_count = 0, s_capped = False\<rparr>"
    by (simp_all add: latestMtimeRecursive_def latestMtimeRecursiveV1_def vendoredDir_def
        skipNames_def skipNamesV1_def)
  show ?thesis using a b c d by (simp add: flatDir_length)
qed

section \<open>Snapshot\<close>

text \<open>
  \<^bold>\<open>C3.\<close>  The project list of a snapshot is the fixed Polymarket Bot project followed by
  the scanned projects, in the order of the configuration: the snapshot keeps that order.
  The ranking is made on a copy: the ranked copy holds the same projects, each as often
  as the list does, in descending order of ROI score, projects of equal score in their list order.  The priority modules
  are the first three projects of the ranked copy, or all of them when the list has fewer
  than three, with the ranks 1, 2, \<dots> in that order.
\<close>

theorem ranking_and_priority_modules:
  "projects (generate clk gw pm dirs sh) = polymarketProject pm # fst (scanProjects dirs sh)
   \<and> length (projects (generate clk gw pm dirs sh)) = Suc (length dirs)
   \<and> count_list (ranked (projects (generate clk gw pm dirs sh))) x
       = count_list (projects (generate clk gw pm dirs sh)) x
   \<and> sorted_wrt (\<lambda>a b. p_roiScore b \<le> p_roiScore a) (ranked (projects (generate clk gw pm dirs sh)))
   \<and> filter (\<lambda>p. p_roiScore p = k) (ranked (projects (generate clk gw pm dirs sh)))
       = filter (\<lambda>p. p_roiScore p = k) (projects (generate clk gw pm dirs sh))
   \<and> length (priorityModules (generate clk gw pm dirs sh)) = min 3 (Suc (length dirs))
   \<and> map m_rank (priorityModules (generate clk gw pm dirs sh))
       = map (\<lambda>i. int i + 1) [0..<min 3 (Suc (length dirs))]
   \<and> map m_id (priorityModules (generate clk gw pm dirs sh))
       = map p_id (take 3 (ranked (projects (generate clk gw pm dirs sh))))
   \<and> map m_roiScore (priorityModules (generate clk gw pm dirs sh))
       = map p_roiScore (take 3 (ranked (projects (generate clk gw pm dirs sh))))"
proof -
  let ?ps = "allProjects pm dirs sh"
  have len: "length ?ps = Suc (length dirs)"
    by (simp add: allProjects_def scanProjects_length)
  have ltop: "length (top ?ps) = min 3 (Suc (length dirs))"
    by (simp add: top_def ranked_def sortByRoi_length len min.commute)
  show ?thesis
    unfolding generate_projects generate_priorityModules
    using len ltop priorityFrom_rank[of 0 "top ?ps"]
    by (simp add: priorityFrom_length priorityFrom_id priorityFrom_roiScore
        ranked_def sortByRoi_count sortByRoi_sorted sortByRoi_stable)
       (simp add: allProjects_def top_def ranked_def)
qed

theorem ranking_and_priority_modules_witness:
  "map p_roiScore (projects (generate someClock gatewayDown noPolymarketDocs [nightshiftDir, emptyDir] noShell))
     = [64, 70, 21]
   \<and> map p_roiScore (ranked (projects (generate someClock gatewayDown noPolymarketDocs [nightshiftDir, emptyDir] noShell)))
     = [70, 64, 21]
   \<and> map m_rank (priorityModules (generate someClock gatewayDown noPolymarketDocs [nightshiftDir, emptyDir] noShell))
     = [1, 2, 3]
   \<and> map m_id (priorityModules (generate someClock gatewayDown noPolymarketDocs [nightshiftDir, emptyDir] noShell))
     = [asc ''nightshift'', asc ''polymarket'', asc ''overnight_ops'']"
proof -
  let ?S = "generate someClock gatewayDown noPolymarketDocs [nightshiftDir, emptyDir] noShell"
  have p: "projects ?S = [polymarketProject noPolymarketDocs, fst (scanProject nightshiftDir noShell),
        fst (scanProject emptyDir noShell)]"
    by (simp add: generate_projects example_projects)
  have a: "map p_roiScore (projects ?S) = [64, 70, 21]"
    unfolding p by (simp add: noPolymarketDocs_scored nightshift_scored emptyDir_scored)
  have b: "map p_roiScore (ranked (projects ?S)) = [70, 64, 21]"
    unfolding p example_ranked by (simp add: noPolymarketDocs_scored nightshift_scored emptyDir_scored)
  have c: "map p_id (take 3 (ranked (projects ?S)))
             = [asc ''nightshift'', asc ''polymarket'', asc ''overnight_ops'']"
    unfolding p example_ranked by (simp add: noPolymarketDocs_scored nightshift_scored emptyDir_scored)
  have d: "map (\<lambda>i. int i + 1) [0..<min 3 (Suc (length [nightshiftDir, emptyDir]))] = [1, 2, 3]"
    by (simp add: upt_rec)
  show ?thesis
    using ranking_and_priority_modules[of someClock gatewayDown noPolymarketDocs "[nightshiftDir, emptyDir]" noShell
        "polymarketProject noPolymarketDocs" 70]
      a b c d
    by simp
qed

text \<open>
  With one scanned project whose ROI score is above that of the fixed project, the
  project list of the snapshot is in ascending order of ROI score, and there are two
  priority modules, not three.
\<close>

theorem ranking_counterexample:
  "map p_roiScore (projects (generate someClock gatewayDown noPolymarketDocs [nightshiftDir] noShell))
     = [64, 70]
   \<and> \<not> sorted (rev (map p_roiScore
           (projects (generate someClock gatewayDown noPolymarketDocs [nightshiftDir] noShell))))
   \<and> map m_rank (priorityModules (generate someClock gatewayDown noPolymarketDocs [nightshiftDir] noShell))
     = [1, 2]"
proof -
  let ?S = "generate someClock gatewayDown noPolymarketDocs [nightshiftDir] noShell"
  have p: "projects ?S = [polymarketProject noPolymarketDocs, fst (scanProject nightshiftDir noShell)]"
    by (simp add: generate_projects example_projects)
  have a: "map p_roiScore (projects ?S) = [64, 70]"
    unfolding p by (simp add: noPolymarketDocs_scored nightshift_scored)
  have b: "map m_rank (priorityModules ?S) = [1, 2]"
    unfolding generate_priorityModules example_projects top_def example_ranked by simp
  show ?thesis using a b by simp
qed

section \<open>Two runs over one workspace\<close>

text \<open>
  \<^bold>\<open>C4.\<close>  The project list of a run is determined by the workspace state (the directory
  trees, the file texts, the answers to the commands) together with the values the clock
  has when the projects are scored.  Two runs over the same state give the same project
  list whenever, for each scanned project, the reading of the second run leads to the
  freshness bucket and to the rounded freshness hours of the first run, and the fixed
  project gets the same rounded freshness hours in both; the other clock readings of a
  run and its gateway probe have no part in the project list.
\<close>

theorem projects_same_up_to_clock:
  assumes "list_all2 sameFreshness ts dirs"
    and "p_freshnessHours (polymarketProject (pm\<lparr>pm_now := t\<rparr>)) = p_freshnessHours (polymarketProject pm)"
    and "answer sh' = answer sh"
  shows "projects (generate clk' gw' (pm\<lparr>pm_now := t\<rparr>) (atReadings ts dirs) sh')
           = projects (generate clk gw pm dirs sh)"
proof -
  have "polymarketProject (pm\<lparr>pm_now := t\<rparr>) = polymarketProject pm"
    using assms(2) by (simp add: polymarketProject_def Let_def)
  then show ?thesis
    using scanProjects_clock[OF list_all2_lengthD[OF assms(1)] assms(1,3)]
    by (simp add: generate_projects allProjects_def)
qed

theorem projects_same_up_to_clock_witness:
  "list_all2 sameFreshness [1700003600001] [nightshiftDir]
   \<and> projects (generate someClock gatewayDown (noPolymarketDocs\<lparr>pm_now := 1700003600002\<rparr>)
        (atReadings [1700003600001] [nightshiftDir]) noShell)
       = projects (generate someClock gatewayDown noPolymarketDocs [nightshiftDir] noShell)"
proof -
  have e: "classifyFreshness (freshnessHoursOf 1700003600001 1700000000000) = hot
           \<and> roundedHours (freshnessHoursOf 1700003600001 1700000000000) = Some 1
           \<and> classifyFreshness (freshnessHoursOf 1700003600000 1700000000000) = hot
           \<and> roundedHours (freshnessHoursOf 1700003600000 1700000000000) = Some 1"
    by code_simp
  have n: "pd_now nightshiftDir = 1700003600000" by (simp add: nightshiftDir_def)
  have h2: "list_all2 sameFreshness [1700003600001] [nightshiftDir]"
    using e by (simp add: sameFreshness_def nightshift_latest n)
  have h3: "p_freshnessHours (polymarketProject (noPolymarketDocs\<lparr>pm_now := 1700003600002\<rparr>))
              = p_freshnessHours (polymarketProject noPolymarketDocs)"
    by (simp add: polymarketProject_def noPolymarketDocs_def Let_def)
  have h4: "answer noShell = answer noShell" by simp
  show ?thesis
    using projects_same_up_to_clock[OF h2 h3 h4, of someClock gatewayDown someClock gatewayDown] h2
    by simp
qed

text \<open>
  Two runs over one workspace state, the clock being one millisecond further in the
  second: the project was last modified six hours before the second reading, so the first
  run calls it hot and the second warm.
\<close>

theorem projects_clock_counterexample:
  "map p_health (projects (generate someClock gatewayDown noPolymarketDocs
       [nightshiftDir\<lparr>pd_now := 1700021599999\<rparr>] noShell))
     = [asc ''stable'', asc ''hot'']
   \<and> map p_health (projects (generate someClock gatewayDown noPolymarketDocs
       [nightshiftDir\<lparr>pd_now := 1700021600000\<rparr>] noShell))
     = [asc ''stable'', asc ''warm'']
   \<and> projects (generate someClock gatewayDown noPolymarketDocs
       [nightshiftDir\<lparr>pd_now := 1700021599999\<rparr>] noShell)
     \<noteq> projects (generate someClock gatewayDown noPolymarketDocs
       [nightshiftDir\<lparr>pd_now := 1700021600000\<rparr>] noShell)"
proof -
  have h: "p_health (fst (scanProject (nightshiftDir\<lparr>pd_now := t\<rparr>) noShell))
             = freshnessName (classifyFreshness (freshnessHoursOf t 1700000000000))" for t
    by (simp add: scanProject_health nightshift_latest)
  have a: "map p_health (projects (generate someClock gatewayDown noPolymarketDocs
       [nightshiftDir\<lparr>pd_now := 1700021599999\<rparr>] noShell)) = [asc ''stable'', asc ''hot'']"
    by (simp add: generate_projects allProjects_def scanProjects_single noPolymarketDocs_scored h
          six_hours freshnessName_def del: scanProjects.simps)
  have b: "map p_health (projects (generate someClock gatewayDown noPolymarketDocs
       [nightshiftDir\<lparr>pd_now := 1700021600000\<rparr>] noShell)) = [asc ''stable'', asc ''warm'']"
    by (simp add: generate_projects allProjects_def scanProjects_single noPolymarketDocs_scored h
          six_hours freshnessName_def del: scanProjects.simps)
  have "asc ''hot'' \<noteq> asc ''warm''" by (simp add: asc_def)
  then have "map p_health (projects (generate someClock gatewayDown noPolymarketDocs
       [nightshiftDir\<lparr>pd_now := 1700021599999\<rparr>] noShell))
     \<noteq> map p_health (projects (generate someClock gatewayDown noPolymarketDocs
       [nightshiftDir\<lparr>pd_now := 1700021600000\<rparr>] noShell))"
    unfolding a b by simp
  then have "projects (generate someClock gatewayDown noPolymarketDocs
       [nightshiftDir\<lparr>pd_now := 1700021599999\<rparr>] noShell)
     \<noteq> projects (generate someClock gatewayDown noPolymarketDocs
       [nightshiftDir\<lparr>pd_now := 1700021600000\<rparr>] noShell)"
    by auto
  then show ?thesis using a b by simp
qed

end
